theory Spec2Isabelle
  imports Complex_Main "HOL-Library.Log_Nat"
begin

section \<open>JavaScript numbers\<close>

text \<open>
  The reporter computes with the JavaScript type \<open>number\<close>, the binary64 format of
  IEEE 754. A \<open>number\<close> is a finite value, negative zero, one of the two infinities, or
  NaN; \<open>Fin 0\<close> is positive zero. A finite value is the rational it denotes. The
  operations follow IEEE 754: signs, zeros, infinities and NaN by its rules, and a finite
  result rounded to the nearest binary64 value, a tie to the even one, with overflow to an
  infinity and gradual underflow.
\<close>

datatype jsnum = Fin rat | NegZero | PosInf | NegInf | NaN

fun is_zero :: "jsnum \<Rightarrow> bool" where
  "is_zero (Fin r) = (r = 0)"
| "is_zero NegZero = True"
| "is_zero _ = False"

fun is_inf :: "jsnum \<Rightarrow> bool" where
  "is_inf PosInf = True"
| "is_inf NegInf = True"
| "is_inf _ = False"

fun is_finite :: "jsnum \<Rightarrow> bool" where
  "is_finite (Fin r) = True"
| "is_finite NegZero = True"
| "is_finite _ = False"

fun sign_bit :: "jsnum \<Rightarrow> bool" where
  "sign_bit (Fin r) = (r < 0)"
| "sign_bit NegZero = True"
| "sign_bit PosInf = False"
| "sign_bit NegInf = True"
| "sign_bit NaN = False"

fun val :: "jsnum \<Rightarrow> rat" where
  "val (Fin r) = r"
| "val _ = 0"

definition signed_zero :: "bool \<Rightarrow> jsnum" where
  "signed_zero neg = (if neg then NegZero else Fin 0)"

definition signed_inf :: "bool \<Rightarrow> jsnum" where
  "signed_inf neg = (if neg then NegInf else PosInf)"

subsection \<open>Rounding to binary64\<close>

text \<open>\<open>rne q\<close> is the integer nearest to \<open>q\<close>, the even one of the two in a tie.\<close>

definition rne :: "rat \<Rightarrow> int" where
  "rne q =
     (let n = \<lfloor>q\<rfloor>; r = q - of_int n
      in if r < 1 / 2 then n else if 1 / 2 < r then n + 1 else if even n then n else n + 1)"

text \<open>For \<open>x > 0\<close>, \<open>expo x\<close> is the exponent \<open>e\<close> with \<open>2 powi e \<le> x < 2 powi (e + 1)\<close>, found from the
  bit lengths of numerator and denominator. \<open>quantum x\<close> is the distance of the binary64
  values around \<open>x\<close>: 52 bits below the exponent, and \<open>2 powi (- 1074)\<close> in the subnormal
  range.\<close>

definition expo :: "rat \<Rightarrow> int" where
  "expo x =
     (let (p, q) = quotient_of x; d = bitlen p - bitlen q
      in if 2 powi d \<le> x then d else d - 1)"

definition quantum :: "rat \<Rightarrow> rat" where
  "quantum x = 2 powi (max (expo x) (- 1022) - 52)"

definition round_pos :: "rat \<Rightarrow> rat" where
  "round_pos x = (let u = quantum x in of_int (rne (x / u)) * u)"

text \<open>\<open>binary64 x\<close> is the number that the exact result \<open>x\<close> of an operation rounds to. An
  exact zero is positive zero here: the operations decide the sign of an exact zero
  themselves. A value that rounds to \<open>2 ^ 1024\<close> or more overflows.\<close>

definition binary64 :: "rat \<Rightarrow> jsnum" where
  "binary64 x =
     (if x = 0 then Fin 0
      else (let m = round_pos \<bar>x\<bar>
            in if m = 0 then signed_zero (x < 0)
               else if 1024 \<le> expo m then signed_inf (x < 0)
               else Fin (if x < 0 then - m else m)))"

subsection \<open>Operations\<close>

text \<open>Unary minus.\<close>

fun js_neg :: "jsnum \<Rightarrow> jsnum" where
  "js_neg (Fin r) = (if r = 0 then NegZero else Fin (- r))"
| "js_neg NegZero = Fin 0"
| "js_neg PosInf = NegInf"
| "js_neg NegInf = PosInf"
| "js_neg NaN = NaN"

text \<open>\<open>a + b\<close>: adding a zero changes nothing; an exact sum that is zero is positive zero
  unless both operands are \<open>-0\<close>.\<close>

fun js_add :: "jsnum \<Rightarrow> jsnum \<Rightarrow> jsnum" where
  "js_add NaN _ = NaN"
| "js_add _ NaN = NaN"
| "js_add PosInf NegInf = NaN"
| "js_add NegInf PosInf = NaN"
| "js_add PosInf _ = PosInf"
| "js_add _ PosInf = PosInf"
| "js_add NegInf _ = NegInf"
| "js_add _ NegInf = NegInf"
| "js_add NegZero NegZero = NegZero"
| "js_add NegZero (Fin b) = Fin b"
| "js_add (Fin a) NegZero = Fin a"
| "js_add (Fin a) (Fin b) =
     (if a = 0 then Fin b else if b = 0 then Fin a else binary64 (a + b))"

text \<open>\<open>a - b\<close> is \<open>a + (-b)\<close>, also on zeros and infinities.\<close>

definition js_sub :: "jsnum \<Rightarrow> jsnum \<Rightarrow> jsnum" where
  "js_sub a b = js_add a (js_neg b)"

text \<open>\<open>a * b\<close>: the sign of the result is the exclusive or of the operands' signs.\<close>

definition js_mul :: "jsnum \<Rightarrow> jsnum \<Rightarrow> jsnum" where
  "js_mul a b =
     (if a = NaN \<or> b = NaN then NaN
      else if (is_inf a \<and> is_zero b) \<or> (is_zero a \<and> is_inf b) then NaN
      else if is_inf a \<or> is_inf b then signed_inf (sign_bit a \<noteq> sign_bit b)
      else if is_zero a \<or> is_zero b then signed_zero (sign_bit a \<noteq> sign_bit b)
      else binary64 (val a * val b))"

text \<open>\<open>a / b\<close>: no operand raises; \<open>0 / 0\<close> and \<open>\<infinity> / \<infinity>\<close> are NaN, a non-zero
  value over zero is an infinity.\<close>

definition js_div :: "jsnum \<Rightarrow> jsnum \<Rightarrow> jsnum" where
  "js_div a b =
     (if a = NaN \<or> b = NaN then NaN
      else if (is_inf a \<and> is_inf b) \<or> (is_zero a \<and> is_zero b) then NaN
      else if is_inf a \<or> is_zero b then signed_inf (sign_bit a \<noteq> sign_bit b)
      else if is_inf b \<or> is_zero a then signed_zero (sign_bit a \<noteq> sign_bit b)
      else binary64 (val a / val b))"

text \<open>The relational operators: every comparison with NaN is false, and the two zeros
  are equal.\<close>

fun js_lt :: "jsnum \<Rightarrow> jsnum \<Rightarrow> bool" where
  "js_lt NaN _ = False"
| "js_lt _ NaN = False"
| "js_lt PosInf _ = False"
| "js_lt _ NegInf = False"
| "js_lt NegInf _ = True"
| "js_lt _ PosInf = True"
| "js_lt a b = (val a < val b)"

definition js_gt :: "jsnum \<Rightarrow> jsnum \<Rightarrow> bool" where
  "js_gt a b = js_lt b a"

fun js_le :: "jsnum \<Rightarrow> jsnum \<Rightarrow> bool" where
  "js_le NaN _ = False"
| "js_le _ NaN = False"
| "js_le NegInf _ = True"
| "js_le _ PosInf = True"
| "js_le PosInf _ = False"
| "js_le _ NegInf = False"
| "js_le a b = (val a \<le> val b)"

definition js_ge :: "jsnum \<Rightarrow> jsnum \<Rightarrow> bool" where
  "js_ge a b = js_le b a"

text \<open>\<open>Math.abs\<close> and \<open>Math.round\<close>. \<open>Math.round\<close> rounds to the nearest integer,
  a tie towards \<open>+\<infinity>\<close>; a result of zero keeps the sign of the argument.\<close>

fun Math_abs :: "jsnum \<Rightarrow> jsnum" where
  "Math_abs (Fin r) = Fin \<bar>r\<bar>"
| "Math_abs NegZero = Fin 0"
| "Math_abs PosInf = PosInf"
| "Math_abs NegInf = PosInf"
| "Math_abs NaN = NaN"

fun Math_round :: "jsnum \<Rightarrow> jsnum" where
  "Math_round (Fin r) =
     (let n = \<lfloor>r + 1 / 2\<rfloor>
      in if n = 0 then signed_zero (r < 0) else Fin (of_int n))"
| "Math_round x = x"

text \<open>The length of an array, as a number. An array holds fewer than \<open>2 ^ 32\<close> elements,
  so its length is a binary64 value as it is. A decimal literal of the source is the
  binary64 value nearest to it.\<close>

definition of_length :: "'a list \<Rightarrow> jsnum" where
  "of_length xs = Fin (of_nat (length xs))"

section \<open>Data model\<close>

text \<open>
  The interfaces of the source, as records. A field keeps its name but where the name is
  taken: in \<open>TestResultData\<close> the field \<open>file\<close> is \<open>filePath\<close> and \<open>duration\<close> is
  \<open>durationMs\<close>, and the fields of the test case and of the test result that the engine
  passes carry the prefixes \<open>tc_\<close> and \<open>tr_\<close>. An optional field is an \<open>option\<close>. The
  field \<open>startTime\<close> of the reporter, which only the HTML template reads, is left out.
\<close>

record SmartReporterOptions =
  outputFile :: string
  historyFile :: string
  maxHistoryRuns :: jsnum
  performanceThreshold :: jsnum

record TestHistoryEntry =
  passed :: bool
  duration :: jsnum
  timestamp :: string

type_synonym TestHistory = "string \<rightharpoonup> TestHistoryEntry list"

datatype Status = Passed | Failed | Skipped | TimedOut | Interrupted

text \<open>The indicator and trend strings. \<open>Stable\<close> is \<open>'Stable'\<close>, \<open>Unstable\<close> is
  \<open>'Unstable'\<close>, \<open>Flaky\<close> is \<open>'Flaky'\<close> and \<open>New\<close> is \<open>'New'\<close>, each after its coloured
  circle. \<open>Slower n\<close> is the string \<open>'n% slower'\<close> after an up arrow, \<open>Faster n\<close> is
  \<open>'n% faster'\<close> after a down arrow, \<open>StableTrend\<close> is \<open>'Stable'\<close> and \<open>Baseline\<close> is
  \<open>'Baseline'\<close> after a right arrow; \<open>n\<close> is the number the template interpolates.\<close>

datatype FlakinessIndicator = Stable | Unstable | Flaky | New

datatype PerformanceTrend = Slower jsnum | Faster jsnum | StableTrend | Baseline

record TestResultData =
  testId :: string
  title :: string
  filePath :: string
  status :: Status
  durationMs :: jsnum
  error :: "string option"
  errorStack :: "string option"
  retry :: nat
  flakinessScore :: "jsnum option"
  flakinessIndicator :: "FlakinessIndicator option"
  performanceTrend :: "PerformanceTrend option"
  averageDuration :: "jsnum option"
  aiSuggestion :: "string option"

text \<open>What the test engine passes to \<open>onTestEnd\<close>: the test case (its title and the
  file of its location) and the result of one attempt.\<close>

record TestError =
  message :: "string option"
  stack :: "string option"

record TestCase =
  tc_title :: string
  tc_location_file :: string

record TestResult =
  tr_status :: Status
  tr_duration :: jsnum
  tr_retry :: nat
  tr_errors :: "TestError list"

record SmartReporter =
  options :: SmartReporterOptions
  results :: "TestResultData list"
  history :: TestHistory
  outputDir :: string

text \<open>\<open>x || d\<close> on an optional string: the empty string is falsy too.\<close>

definition or_else :: "string option \<Rightarrow> string \<Rightarrow> string" where
  "or_else x d = (case x of None \<Rightarrow> d | Some s \<Rightarrow> if s = [] then d else s)"

text \<open>\<open>this.history[testId] || []\<close>: an array is truthy, an absent key gives the
  empty array.\<close>

definition lookup_entries :: "TestHistory \<Rightarrow> string \<Rightarrow> TestHistoryEntry list" where
  "lookup_entries h k = (case h k of None \<Rightarrow> [] | Some es \<Rightarrow> es)"

text \<open>
  A value that \<open>JSON.parse\<close> returns. The members of an object are listed in the order
  of the text; of two members with the same name the later one counts.
\<close>

datatype json =
  JNull | JBool bool | JNum jsnum | JStr string | JArr "json list" | JObj "(string \<times> json) list"

definition member :: "(string \<times> json) list \<Rightarrow> string \<Rightarrow> json option" where
  "member ms k = map_of (rev ms) k"

text \<open>
  The source assigns the parsed value to \<open>this.history\<close> under the type \<open>TestHistory\<close>
  and checks nothing. \<open>as_TestHistory\<close> tells whether a value has that type: an object
  whose members are arrays of objects with a boolean \<open>passed\<close>, a number \<open>duration\<close> and
  a string \<open>timestamp\<close>. It gives the mapping that such a value is.
\<close>

fun as_entry :: "json \<Rightarrow> TestHistoryEntry option" where
  "as_entry (JObj ms) =
     (case (member ms ''passed'', member ms ''duration'', member ms ''timestamp'') of
        (Some (JBool b), Some (JNum d), Some (JStr t)) \<Rightarrow>
          Some \<lparr> passed = b, duration = d, timestamp = t \<rparr>
      | _ \<Rightarrow> None)"
| "as_entry _ = None"

fun as_entries :: "json \<Rightarrow> TestHistoryEntry list option" where
  "as_entries (JArr vs) = those (map as_entry vs)"
| "as_entries _ = None"

fun as_TestHistory :: "json \<Rightarrow> TestHistory option" where
  "as_TestHistory (JObj ms) =
     (case those (map (\<lambda>(k, v). map_option (Pair k) (as_entries v)) ms) of
        None \<Rightarrow> None
      | Some kes \<Rightarrow> Some (map_of (rev kes)))"
| "as_TestHistory _ = None"

text \<open>The options as the caller of the constructor supplies them: each may be absent.\<close>

record SmartReporterOptionsInput =
  in_outputFile :: "string option"
  in_historyFile :: "string option"
  in_maxHistoryRuns :: "jsnum option"
  in_performanceThreshold :: "jsnum option"

section \<open>The platform and the outside world\<close>

text \<open>
  Errors are values. \<open>js_error\<close> lists what the platform can throw at the reporter.
\<close>

datatype provider = Anthropic | OpenAI

datatype js_error = TypeError | IOError | NetworkError | ApiError provider nat

text \<open>
  What a request to a provider can come to: \<open>fetch\<close> rejects; the response is not
  \<open>ok\<close> and carries a status; the body is not the expected JSON (reading it throws); or
  the body is read and its first text is present or absent.
\<close>

datatype http_outcome = Rejected | NotOk nat | BadBody | Body "string option"

text \<open>
  The functions of the platform are parameters: \<open>path.relative\<close>, \<open>path.resolve\<close>,
  \<open>JSON.parse\<close> (\<open>None\<close> when it throws, the parsed value otherwise),
  \<open>JSON.stringify\<close>, the
  clock read by \<open>new Date().toISOString()\<close>, the network behind \<open>fetch\<close> (its outcome
  may depend on the number of requests made before, on the provider and on the prompt),
  and the two environment variables. \<open>generateHtml\<close> is the HTML template of the report:
  a total function of the results whose text plays no part below.
\<close>

record platform =
  path_relative :: "string \<Rightarrow> string \<Rightarrow> string"
  path_resolve :: "string \<Rightarrow> string \<Rightarrow> string"
  JSON_parse :: "string \<Rightarrow> json option"
  JSON_stringify :: "TestHistory \<Rightarrow> string"
  toISOString_now :: string
  fetch :: "nat \<Rightarrow> provider \<Rightarrow> string \<Rightarrow> http_outcome"
  ANTHROPIC_API_KEY :: "string option"
  OPENAI_API_KEY :: "string option"
  generateHtml :: "TestResultData list \<Rightarrow> string"

text \<open>
  The world outside the reporter: the files (a path that exists holds a text or cannot be
  read), the paths that can be written, the lines of the console, the requests sent, and
  the trace of the files written, in order.
\<close>

datatype fs_entry = Regular string | Unreadable

datatype console_line =
  Tip | Analyzing nat | SuggestionFailed string js_error | ReportPath string

record world =
  files :: "string \<rightharpoonup> fs_entry"
  writable :: "string \<Rightarrow> bool"
  console :: "console_line list"
  requests :: "(provider \<times> string) list"
  writes :: "(string \<times> string) list"

definition existsSync :: "world \<Rightarrow> string \<Rightarrow> bool" where
  "existsSync w p = (files w p \<noteq> None)"

definition readFileSync :: "world \<Rightarrow> string \<Rightarrow> js_error + string" where
  "readFileSync w p = (case files w p of Some (Regular text) \<Rightarrow> Inr text | _ \<Rightarrow> Inl IOError)"

definition writeFileSync :: "world \<Rightarrow> string \<Rightarrow> string \<Rightarrow> js_error + world" where
  "writeFileSync w p text =
     (if writable w p
      then Inr (w \<lparr> files := (files w)(p \<mapsto> Regular text), writes := writes w @ [(p, text)] \<rparr>)
      else Inl IOError)"

section \<open>The reporter\<close>

text \<open>The constructor: \<open>??\<close> replaces an absent option only.\<close>

definition or_default :: "'a option \<Rightarrow> 'a \<Rightarrow> 'a" where
  "or_default x d = (case x of None \<Rightarrow> d | Some v \<Rightarrow> v)"

definition constructor :: "SmartReporterOptionsInput \<Rightarrow> SmartReporter" where
  "constructor opts =
     \<lparr> options = \<lparr> outputFile = or_default (in_outputFile opts) ''smart-report.html'',
                   historyFile = or_default (in_historyFile opts) ''test-history.json'',
                   maxHistoryRuns = or_default (in_maxHistoryRuns opts) (Fin 10),
                   performanceThreshold = or_default (in_performanceThreshold opts) (binary64 (2 / 10)) \<rparr>,
       results = [], history = Map.empty, outputDir = [] \<rparr>"

subsection \<open>History management\<close>

text \<open>
  What \<open>this.history\<close> holds after \<open>loadHistory\<close>: \<open>Typed this'\<close> when it is a
  \<open>TestHistory\<close>, the reporter then being \<open>this'\<close>; \<open>Untyped v\<close> when it is the parsed value
  \<open>v\<close> that is no \<open>TestHistory\<close> (\<open>null\<close>, a number, an array, an object with members of
  another shape), stored as it is. The other fields of the reporter are not touched.
\<close>

datatype loaded = Typed SmartReporter | Untyped json

definition loadHistory :: "platform \<Rightarrow> SmartReporter \<Rightarrow> world \<Rightarrow> loaded" where
  "loadHistory P this w =
     (let historyPath = path_resolve P (outputDir this) (historyFile (options this))
      in if existsSync w historyPath
         then (case readFileSync w historyPath of
                 Inl _ \<Rightarrow> Typed (this \<lparr> history := Map.empty \<rparr>)
               | Inr text \<Rightarrow>
                   (case JSON_parse P text of
                      None \<Rightarrow> Typed (this \<lparr> history := Map.empty \<rparr>)
                    | Some v \<Rightarrow>
                        (case as_TestHistory v of
                           Some h \<Rightarrow> Typed (this \<lparr> history := h \<rparr>)
                         | None \<Rightarrow> Untyped v)))
         else Typed this)"

definition onBegin :: "platform \<Rightarrow> string \<Rightarrow> SmartReporter \<Rightarrow> world \<Rightarrow> loaded" where
  "onBegin P rootDir this w = loadHistory P (this \<lparr> outputDir := rootDir \<rparr>) w"

text \<open>
  \<open>Array.prototype.slice(start)\<close>: \<open>start\<close> is truncated to an integer (NaN counts as
  0); a negative \<open>start\<close> counts from the end and stops at the front; a \<open>start\<close> past
  the end gives the empty array.
\<close>

definition trunc :: "rat \<Rightarrow> int" where
  "trunc r = (if r < 0 then \<lceil>r\<rceil> else \<lfloor>r\<rfloor>)"

fun slice_start :: "jsnum \<Rightarrow> nat \<Rightarrow> nat" where
  "slice_start (Fin r) len =
     (let i = trunc r in if i < 0 then nat (max (int len + i) 0) else min (nat i) len)"
| "slice_start PosInf len = len"
| "slice_start _ len = 0"

definition slice :: "'a list \<Rightarrow> jsnum \<Rightarrow> 'a list" where
  "slice xs start = drop (slice_start start (length xs)) xs"

text \<open>The entry pushed for one result, and the body of the loop of \<open>updateHistory\<close>
  for that result.\<close>

definition new_entry :: "string \<Rightarrow> TestResultData \<Rightarrow> TestHistoryEntry" where
  "new_entry ts r = \<lparr> passed = (status r = Passed), duration = durationMs r, timestamp = ts \<rparr>"

definition updateHistory_step :: "SmartReporterOptions \<Rightarrow> string \<Rightarrow> TestHistory \<Rightarrow> TestResultData \<Rightarrow> TestHistory" where
  "updateHistory_step opts ts h r =
     (let h1 = (case h (testId r) of None \<Rightarrow> h(testId r \<mapsto> []) | Some _ \<Rightarrow> h);
          es = lookup_entries h1 (testId r) @ [new_entry ts r];
          h2 = h1(testId r \<mapsto> es)
      in if js_gt (of_length es) (maxHistoryRuns opts)
         then h2(testId r \<mapsto> slice es (js_neg (maxHistoryRuns opts)))
         else h2)"

definition updateHistory :: "platform \<Rightarrow> SmartReporter \<Rightarrow> world \<Rightarrow> js_error + SmartReporter \<times> world" where
  "updateHistory P this w =
     (let ts = toISOString_now P;
          h = foldl (updateHistory_step (options this) ts) (history this) (results this);
          this' = this \<lparr> history := h \<rparr>;
          historyPath = path_resolve P (outputDir this) (historyFile (options this))
      in case writeFileSync w historyPath (JSON_stringify P h) of
           Inl e \<Rightarrow> Inl e
         | Inr w' \<Rightarrow> Inr (this', w'))"

subsection \<open>Flakiness and performance\<close>

definition getTestId :: "platform \<Rightarrow> SmartReporter \<Rightarrow> TestCase \<Rightarrow> string" where
  "getTestId P this test =
     (let relFile = path_relative P (outputDir this) (tc_location_file test)
      in relFile @ ''::'' @ tc_title test)"

definition getFlakinessIndicator :: "jsnum \<Rightarrow> FlakinessIndicator" where
  "getFlakinessIndicator score =
     (if js_lt score (binary64 (1 / 10)) then Stable
      else if js_lt score (binary64 (3 / 10)) then Unstable
      else Flaky)"

definition getPerformanceTrend :: "SmartReporter \<Rightarrow> jsnum \<Rightarrow> jsnum \<Rightarrow> PerformanceTrend" where
  "getPerformanceTrend this current average =
     (let diff = js_div (js_sub current average) average
      in if js_gt diff (performanceThreshold (options this))
         then Slower (Math_round (js_mul diff (Fin 100)))
         else if js_lt diff (js_neg (performanceThreshold (options this)))
         then Faster (Math_round (js_mul (Math_abs diff) (Fin 100)))
         else StableTrend)"

subsection \<open>Test completion\<close>

definition onTestEnd :: "platform \<Rightarrow> SmartReporter \<Rightarrow> TestCase \<Rightarrow> TestResult \<Rightarrow> SmartReporter" where
  "onTestEnd P this test result =
     (let tid = getTestId P this test;
          relFile = path_relative P (outputDir this) (tc_location_file test);
          testData0 = \<lparr> testId = tid, title = tc_title test, filePath = relFile,
                        status = tr_status result, durationMs = tr_duration result,
                        error = None, errorStack = None, retry = tr_retry result,
                        flakinessScore = None, flakinessIndicator = None,
                        performanceTrend = None, averageDuration = None,
                        aiSuggestion = None \<rparr>;
          testData1 =
            (if tr_status result = Failed \<or> tr_status result = TimedOut
             then (case tr_errors result of
                     [] \<Rightarrow> testData0
                   | e # _ \<Rightarrow> testData0 \<lparr> error := Some (or_else (message e) ''Unknown error''),
                                          errorStack := stack e \<rparr>)
             else testData0);
          historyEntries = lookup_entries (history this) tid;
          testData2 =
            (if js_gt (of_length historyEntries) (Fin 0)
             then (let failures = of_length (filter (\<lambda>e. \<not> passed e) historyEntries);
                       score = js_div failures (of_length historyEntries);
                       avgDuration =
                         js_div (foldl (\<lambda>sum e. js_add sum (duration e)) (Fin 0) historyEntries)
                                (of_length historyEntries)
                   in testData1 \<lparr> flakinessScore := Some score,
                                   flakinessIndicator := Some (getFlakinessIndicator score),
                                   averageDuration := Some avgDuration,
                                   performanceTrend :=
                                     Some (getPerformanceTrend this (tr_duration result) avgDuration) \<rparr>)
             else testData1 \<lparr> flakinessIndicator := Some New,
                               performanceTrend := Some Baseline \<rparr>)
      in this \<lparr> results := results this @ [testData2] \<rparr>)"

subsection \<open>AI suggestions\<close>

definition truthy :: "string option \<Rightarrow> bool" where
  "truthy x = (case x of None \<Rightarrow> False | Some s \<Rightarrow> s \<noteq> [])"

definition nl :: string where
  "nl = [CHR 0x0A]"

definition buildAiPrompt :: "TestResultData \<Rightarrow> string" where
  "buildAiPrompt test =
     ''Analyze this Playwright test failure and suggest a fix. Be concise (2-3 sentences max).''
     @ nl @ nl
     @ ''Test: '' @ title test @ nl
     @ ''File: '' @ filePath test @ nl
     @ ''Error: '' @ or_else (error test) ''Unknown error'' @ nl
     @ nl
     @ ''Stack trace:'' @ nl
     @ or_else (errorStack test) ''No stack trace available'' @ nl
     @ nl
     @ ''Provide a brief, actionable suggestion to fix this failure.''"

text \<open>A call to a provider sends one request; it returns the suggestion or throws.\<close>

definition callProvider :: "provider \<Rightarrow> platform \<Rightarrow> world \<Rightarrow> string \<Rightarrow> (js_error + string) \<times> world" where
  "callProvider prov P w prompt =
     (let outcome = fetch P (length (requests w)) prov prompt;
          w' = w \<lparr> requests := requests w @ [(prov, prompt)] \<rparr>
      in (case outcome of
            Rejected \<Rightarrow> Inl NetworkError
          | NotOk st \<Rightarrow> Inl (ApiError prov st)
          | BadBody \<Rightarrow> Inl TypeError
          | Body text \<Rightarrow> Inr (or_else text ''No suggestion available''),
          w'))"

definition callAnthropic :: "platform \<Rightarrow> world \<Rightarrow> string \<Rightarrow> string \<Rightarrow> (js_error + string) \<times> world" where
  "callAnthropic P w prompt apiKey = callProvider Anthropic P w prompt"

definition callOpenAI :: "platform \<Rightarrow> world \<Rightarrow> string \<Rightarrow> string \<Rightarrow> (js_error + string) \<times> world" where
  "callOpenAI P w prompt apiKey = callProvider OpenAI P w prompt"

text \<open>The body of the \<open>try\<close> block, for one failing test: the test with its suggestion
  set, or the error thrown.\<close>

definition try_suggestion :: "platform \<Rightarrow> TestResultData \<Rightarrow> world \<Rightarrow> (js_error + TestResultData) \<times> world" where
  "try_suggestion P test w =
     (let prompt = buildAiPrompt test;
          anthropicKey = ANTHROPIC_API_KEY P;
          openaiKey = OPENAI_API_KEY P
      in if truthy anthropicKey
         then (case callAnthropic P w prompt (or_default anthropicKey []) of
                 (Inl e, w') \<Rightarrow> (Inl e, w')
               | (Inr s, w') \<Rightarrow> (Inr (test \<lparr> aiSuggestion := Some s \<rparr>), w'))
         else if truthy openaiKey
         then (case callOpenAI P w prompt (or_default openaiKey []) of
                 (Inl e, w') \<Rightarrow> (Inl e, w')
               | (Inr s, w') \<Rightarrow> (Inr (test \<lparr> aiSuggestion := Some s \<rparr>), w'))
         else (Inr test, w))"

text \<open>The \<open>try\<close> statement for one failing test: an error thrown in the \<open>try\<close> block
  is caught and written to the console with the title of the test; the test is left as it
  was.\<close>

definition suggestion_step :: "platform \<Rightarrow> TestResultData \<Rightarrow> world \<Rightarrow> TestResultData \<times> world" where
  "suggestion_step P test w =
     (case try_suggestion P test w of
        (Inl err, w') \<Rightarrow>
          (test, w' \<lparr> console := console w' @ [SuggestionFailed (title test) err] \<rparr>)
      | (Inr test', w') \<Rightarrow> (test', w'))"

text \<open>The loop over the failing tests, one after the other.\<close>

fun suggestion_loop :: "platform \<Rightarrow> TestResultData list \<Rightarrow> world \<Rightarrow> TestResultData list \<times> world" where
  "suggestion_loop P [] w = ([], w)"
| "suggestion_loop P (test # rest) w =
     (let (test', w1) = suggestion_step P test w;
          (rest', w2) = suggestion_loop P rest w1
      in (test' # rest', w2))"

text \<open>The provider that the credentials select.\<close>

definition selected_provider :: "platform \<Rightarrow> provider" where
  "selected_provider P = (if truthy (ANTHROPIC_API_KEY P) then Anthropic else OpenAI)"

definition isFailure :: "TestResultData \<Rightarrow> bool" where
  "isFailure r = (status r = Failed \<or> status r = TimedOut)"

text \<open>The elements of \<open>failedTests\<close> are the objects of \<open>this.results\<close> themselves, so
  an assignment in the loop shows in \<open>this.results\<close>: the failing results are replaced,
  in order, by their updated versions.\<close>

fun write_back :: "TestResultData list \<Rightarrow> TestResultData list \<Rightarrow> TestResultData list" where
  "write_back [] upd = []"
| "write_back (r # rs) upd =
     (if isFailure r
      then (case upd of [] \<Rightarrow> r # write_back rs [] | u # us \<Rightarrow> u # write_back rs us)
      else r # write_back rs upd)"

definition addAiSuggestions :: "platform \<Rightarrow> SmartReporter \<Rightarrow> world \<Rightarrow> SmartReporter \<times> world" where
  "addAiSuggestions P this w =
     (let failedTests = filter isFailure (results this)
      in if length failedTests = 0 then (this, w)
         else if \<not> truthy (ANTHROPIC_API_KEY P) \<and> \<not> truthy (OPENAI_API_KEY P)
         then (this, w \<lparr> console := console w @ [Tip] \<rparr>)
         else (let w1 = w \<lparr> console := console w @ [Analyzing (length failedTests)] \<rparr>;
                   (updated, w2) = suggestion_loop P failedTests w1
               in (this \<lparr> results := write_back (results this) updated \<rparr>, w2)))"

subsection \<open>Run end\<close>

definition onEnd :: "platform \<Rightarrow> SmartReporter \<Rightarrow> world \<Rightarrow> js_error + SmartReporter \<times> world" where
  "onEnd P this w =
     (let (this1, w1) = addAiSuggestions P this w;
          html = generateHtml P (results this1);
          outputPath = path_resolve P (outputDir this1) (outputFile (options this1))
      in case writeFileSync w1 outputPath html of
           Inl e \<Rightarrow> Inl e
         | Inr w2 \<Rightarrow>
             updateHistory P this1 (w2 \<lparr> console := console w2 @ [ReportPath outputPath] \<rparr>))"

definition collect :: "platform \<Rightarrow> SmartReporter \<Rightarrow> (TestCase \<times> TestResult) list \<Rightarrow> SmartReporter" where
  "collect P this events = foldl (\<lambda>s (test, result). onTestEnd P s test result) this events"

text \<open>
  One run: the reporter is constructed, the run begins, the tests end one after the
  other, and the run ends; an error thrown by one of these calls ends the run. The result
  is \<open>Some\<close> of the error thrown, or of the reporter and the world at the end.

  The functions above describe a reporter whose \<open>this.history\<close> is a \<open>TestHistory\<close>.
  When \<open>loadHistory\<close> has stored another value, this much is described: with \<open>null\<close>
  the first test end throws a \<open>TypeError\<close> where it reads \<open>this.history[testId]\<close>,
  before it records a result. Everything else of such a run is left open: the result is
  \<open>None\<close>.
\<close>

fun run_untyped :: "json \<Rightarrow> (TestCase \<times> TestResult) list \<Rightarrow> (js_error + SmartReporter \<times> world) option" where
  "run_untyped JNull (e # es) = Some (Inl TypeError)"
| "run_untyped v es = None"

definition run :: "platform \<Rightarrow> SmartReporterOptionsInput \<Rightarrow> string \<Rightarrow> (TestCase \<times> TestResult) list \<Rightarrow> world \<Rightarrow> (js_error + SmartReporter \<times> world) option" where
  "run P opts rootDir events w =
     (case onBegin P rootDir (constructor opts) w of
        Typed this \<Rightarrow> Some (onEnd P (collect P this events) w)
      | Untyped v \<Rightarrow> run_untyped v events)"

section \<open>Example inputs\<close>

text \<open>A project rooted at \<open>/r\<close>. \<open>rel0\<close> agrees with \<open>path.relative\<close> on a file below
  the root; \<open>P0\<close> is a platform with no credentials, an unreachable network and a history
  file that does not parse.\<close>

definition rel0 :: "string \<Rightarrow> string \<Rightarrow> string" where
  "rel0 from to =
     (if take (length from + 1) to = from @ ''/'' then drop (length from + 1) to else to)"

definition P0 :: platform where
  "P0 = \<lparr> path_relative = rel0,
          path_resolve = (\<lambda>dir f. dir @ ''/'' @ f),
          JSON_parse = (\<lambda>text. None),
          JSON_stringify = (\<lambda>h. ''{}''),
          toISOString_now = ''2024-01-01T00:00:00.000Z'',
          fetch = (\<lambda>n prov prompt. Rejected),
          ANTHROPIC_API_KEY = None,
          OPENAI_API_KEY = None,
          generateHtml = (\<lambda>rs. ''<!DOCTYPE html>'') \<rparr>"

definition no_options :: SmartReporterOptionsInput where
  "no_options = \<lparr> in_outputFile = None, in_historyFile = None,
                  in_maxHistoryRuns = None, in_performanceThreshold = None \<rparr>"

definition entry :: "bool \<Rightarrow> rat \<Rightarrow> TestHistoryEntry" where
  "entry ok ms = \<lparr> passed = ok, duration = Fin ms, timestamp = ''2023-12-31T00:00:00.000Z'' \<rparr>"

definition reporter0 :: "TestHistory \<Rightarrow> SmartReporter" where
  "reporter0 h = (constructor no_options) \<lparr> history := h, outputDir := ''/r'' \<rparr>"

definition test0 :: TestCase where
  "test0 = \<lparr> tc_title = ''logs in'', tc_location_file = ''/r/a.spec.ts'' \<rparr>"

definition result0 :: "Status \<Rightarrow> rat \<Rightarrow> TestResult" where
  "result0 st ms = \<lparr> tr_status = st, tr_duration = Fin ms, tr_retry = 0, tr_errors = [] \<rparr>"

definition one_in_ten :: "TestHistoryEntry list" where
  "one_in_ten = entry False 100 # replicate 9 (entry True 100)"

definition three_in_ten :: "TestHistoryEntry list" where
  "three_in_ten = replicate 3 (entry False 100) @ replicate 7 (entry True 100)"

text \<open>A reporter that keeps two runs, a result of \<open>test0\<close>, a history whose only
  sequence holds three entries of a test that no longer runs, a world where every path
  can be written, and a platform and a world where the history file holds that history.\<close>

definition max2_options :: SmartReporterOptionsInput where
  "max2_options = no_options \<lparr> in_maxHistoryRuns := Some (Fin 2) \<rparr>"

definition reporter2 :: "TestHistory \<Rightarrow> SmartReporter" where
  "reporter2 h = (constructor max2_options) \<lparr> history := h, outputDir := ''/r'' \<rparr>"

definition data0 :: "Status \<Rightarrow> rat \<Rightarrow> TestResultData" where
  "data0 st ms =
     \<lparr> testId = ''a.spec.ts::logs in'', title = ''logs in'', filePath = ''a.spec.ts'',
       status = st, durationMs = Fin ms, error = None, errorStack = None, retry = 0,
       flakinessScore = None, flakinessIndicator = Some New,
       performanceTrend = Some Baseline, averageDuration = None, aiSuggestion = None \<rparr>"

definition three_old :: TestHistory where
  "three_old = [''old.spec.ts::gone'' \<mapsto> [entry True 1, entry True 2, entry True 3]]"

definition w0 :: world where
  "w0 = \<lparr> files = Map.empty, writable = (\<lambda>p. True), console = [], requests = [], writes = [] \<rparr>"

definition json_entry :: "bool \<Rightarrow> rat \<Rightarrow> json" where
  "json_entry ok ms =
     JObj [(''passed'', JBool ok), (''duration'', JNum (Fin ms)),
           (''timestamp'', JStr ''2023-12-31T00:00:00.000Z'')]"

definition P1 :: platform where
  "P1 = P0 \<lparr> JSON_parse := (\<lambda>text.
          if text = ''seed''
          then Some (JObj [(''old.spec.ts::gone'',
                            JArr [json_entry True 1, json_entry True 2, json_entry True 3])])
          else None) \<rparr>"

definition w_seeded :: world where
  "w_seeded = w0 \<lparr> files := [''/r/test-history.json'' \<mapsto> Regular ''seed''] \<rparr>"

text \<open>A reporter that keeps two runs at the end of a run with the given results, and a
  history with two entries for \<open>test0\<close>.\<close>

definition ran2 :: "TestHistory \<Rightarrow> TestResultData list \<Rightarrow> SmartReporter" where
  "ran2 h rs = (reporter2 h) \<lparr> results := rs \<rparr>"

definition two_recent :: TestHistory where
  "two_recent = [''a.spec.ts::logs in'' \<mapsto> [entry True 1, entry True 2]]"

text \<open>Two tests of two files: the title of the first and the file name of the second
  hold the separator.\<close>

definition testA :: TestCase where
  "testA = \<lparr> tc_title = ''b.spec.ts::works'', tc_location_file = ''/r/a.spec.ts'' \<rparr>"

definition testB :: TestCase where
  "testB = \<lparr> tc_title = ''works'', tc_location_file = ''/r/a.spec.ts::b.spec.ts'' \<rparr>"

text \<open>A world whose history file is cut short.\<close>

definition w_cut :: world where
  "w_cut = w0 \<lparr> files := [''/r/test-history.json'' \<mapsto> Regular ''{ \"a.spec.ts::logs in\": [''] \<rparr>"

text \<open>A platform with a credential whose first request is rejected and whose later
  requests are answered, and a reporter at the end of a run with two failing tests around
  a passing one.\<close>

definition P2 :: platform where
  "P2 = P0 \<lparr> fetch := (\<lambda>n prov prompt. if n = 0 then Rejected else Body (Some ''Await the locator.'')),
             ANTHROPIC_API_KEY := Some ''key'' \<rparr>"

definition failing :: "string \<Rightarrow> Status \<Rightarrow> TestResultData" where
  "failing name st =
     (data0 st 9) \<lparr> testId := ''a.spec.ts::'' @ name, title := name,
                     error := Some ''Timeout 5000ms exceeded'' \<rparr>"

definition ended2 :: SmartReporter where
  "ended2 = ran2 Map.empty [failing ''first'' Failed, data0 Passed 5, failing ''second'' TimedOut]"

text \<open>A platform whose \<open>JSON.parse\<close> reads the text \<open>null\<close>, and a world whose history
  file holds that text.\<close>

definition P_null :: platform where
  "P_null = P0 \<lparr> JSON_parse := (\<lambda>text. if text = ''null'' then Some JNull else None) \<rparr>"

definition w_null :: world where
  "w_null = w0 \<lparr> files := [''/r/test-history.json'' \<mapsto> Regular ''null''] \<rparr>"

text \<open>Histories of \<open>test0\<close> with durations in milliseconds, and a reporter whose
  threshold is negative.\<close>

definition took :: "rat list \<Rightarrow> TestHistory" where
  "took ds = [''a.spec.ts::logs in'' \<mapsto> map (entry True) ds]"

definition eager_options :: SmartReporterOptionsInput where
  "eager_options = no_options \<lparr> in_performanceThreshold := Some (binary64 (- 1 / 2)) \<rparr>"

definition eager_reporter :: "TestHistory \<Rightarrow> SmartReporter" where
  "eager_reporter h = (constructor eager_options) \<lparr> history := h, outputDir := ''/r'' \<rparr>"

section \<open>Properties of rounding\<close>

lemma rne_cases: "rne q = \<lfloor>q\<rfloor> \<or> rne q = \<lfloor>q\<rfloor> + 1"
  by (simp add: rne_def Let_def)

lemma rne_of_int: "rne (of_int n) = n"
  by (simp add: rne_def Let_def)

lemma rne_mono:
  assumes "q \<le> q'"
  shows "rne q \<le> rne q'"
proof (cases "\<lfloor>q\<rfloor> = \<lfloor>q'\<rfloor>")
  case False
  with assms have "\<lfloor>q\<rfloor> < \<lfloor>q'\<rfloor>" by (simp add: floor_mono less_le)
  moreover have "rne q \<le> \<lfloor>q\<rfloor> + 1" using rne_cases [of q] by auto
  moreover have "\<lfloor>q'\<rfloor> \<le> rne q'" using rne_cases [of q'] by auto
  ultimately show ?thesis by linarith
next
  case True
  with assms have "q - of_int \<lfloor>q\<rfloor> \<le> q' - of_int \<lfloor>q'\<rfloor>" by simp
  with True show ?thesis
    by (auto simp add: rne_def Let_def)
qed

lemma rne_ge: "of_int N \<le> q \<Longrightarrow> N \<le> rne q"
  using rne_mono [of "of_int N" q] by (simp add: rne_of_int)

lemma rne_le: "q \<le> of_int N \<Longrightarrow> rne q \<le> N"
  using rne_mono [of q "of_int N"] by (simp add: rne_of_int)

lemma two_powi_pos: "0 < (2::rat) powi k"
  by (simp add: power_int_def)

lemma two_powi_mono: "k \<le> l \<Longrightarrow> (2::rat) powi k \<le> 2 powi l"
  by (rule power_int_increasing) simp_all

lemma two_powi_less_imp: "(2::rat) powi k < 2 powi l \<Longrightarrow> k < l"
  using two_powi_mono [of l k] by (cases "k < l") auto

lemma expo_bounds:
  assumes "0 < x"
  shows "2 powi (expo x) \<le> x \<and> x < 2 powi (expo x + 1)"
proof -
  obtain p q where pq: "quotient_of x = (p, q)" by (cases "quotient_of x")
  then have q: "0 < q" and x: "x = of_int p / of_int q"
    using quotient_of_denom_pos [OF pq] quotient_of_div [OF pq] by simp_all
  from assms q x have p: "0 < p" by (simp add: zero_less_divide_iff)
  define d where "d = bitlen p - bitlen q"
  have bp: "1 \<le> bitlen p" and bq: "1 \<le> bitlen q"
    using p q bitlen_eq_zero_iff [of p] bitlen_eq_zero_iff [of q] bitlen_nonneg [of p] bitlen_nonneg [of q]
    by linarith+
  have conv: "0 \<le> k \<Longrightarrow> (2::rat) ^ nat k = 2 powi k" for k
    by (simp add: power_int_def)
  have plo: "(2::rat) powi (bitlen p - 1) \<le> of_int p" and phi: "of_int p < (2::rat) powi (bitlen p)"
  proof -
    from bitlen_bounds [OF p] have "2 ^ nat (bitlen p - 1) \<le> p" "p < 2 ^ nat (bitlen p)" by simp_all
    then have "(of_int (2 ^ nat (bitlen p - 1)) :: rat) \<le> of_int p" "(of_int p :: rat) < of_int (2 ^ nat (bitlen p))"
      by (simp_all only: of_int_le_iff of_int_less_iff)
    then show "(2::rat) powi (bitlen p - 1) \<le> of_int p" "of_int p < (2::rat) powi (bitlen p)"
      using bp by (simp_all add: conv [symmetric])
  qed
  have qlo: "(2::rat) powi (bitlen q - 1) \<le> of_int q" and qhi: "of_int q < (2::rat) powi (bitlen q)"
  proof -
    from bitlen_bounds [OF q] have "2 ^ nat (bitlen q - 1) \<le> q" "q < 2 ^ nat (bitlen q)" by simp_all
    then have "(of_int (2 ^ nat (bitlen q - 1)) :: rat) \<le> of_int q" "(of_int q :: rat) < of_int (2 ^ nat (bitlen q))"
      by (simp_all only: of_int_le_iff of_int_less_iff)
    then show "(2::rat) powi (bitlen q - 1) \<le> of_int q" "of_int q < (2::rat) powi (bitlen q)"
      using bq by (simp_all add: conv [symmetric])
  qed
  have qpos: "(0::rat) < of_int q" using q by simp
  have lo: "2 powi (d - 1) < x"
  proof -
    have "2 powi (d - 1) * of_int q < (2::rat) powi (d - 1) * 2 powi (bitlen q)"
      using qhi two_powi_pos [of "d - 1"] by (simp add: mult_strict_left_mono)
    also have "\<dots> = 2 powi (bitlen p - 1)"
      by (simp add: d_def power_int_add [symmetric])
    also have "\<dots> \<le> of_int p" by (rule plo)
    finally show ?thesis using qpos by (simp add: x pos_less_divide_eq)
  qed
  have hi: "x < 2 powi (d + 1)"
  proof -
    have "of_int p < (2::rat) powi (bitlen p)" by (rule phi)
    also have "\<dots> = 2 powi (d + 1) * 2 powi (bitlen q - 1)"
      by (simp add: d_def power_int_add [symmetric])
    also have "\<dots> \<le> 2 powi (d + 1) * of_int q"
      using qlo two_powi_pos [of "d + 1"] by (simp add: mult_left_mono)
    finally show ?thesis using qpos by (simp add: x pos_divide_less_eq)
  qed
  have e: "expo x = (if 2 powi d \<le> x then d else d - 1)"
    by (simp add: expo_def pq d_def Let_def)
  show ?thesis
  proof (cases "2 powi d \<le> x")
    case True
    with hi e show ?thesis by simp
  next
    case False
    with lo e show ?thesis by simp
  qed
qed

lemma expo_mono:
  assumes "0 < x" "x \<le> y"
  shows "expo x \<le> expo y"
proof -
  from assms have y: "0 < y" by simp
  from expo_bounds [OF assms(1)] expo_bounds [OF y] assms(2)
  have "(2::rat) powi (expo x) < 2 powi (expo y + 1)" by linarith
  from two_powi_less_imp [OF this] show ?thesis by simp
qed

lemma powi_53: "(of_int (2 ^ 53) :: rat) = 2 powi 53" and powi_52: "(of_int (2 ^ 52) :: rat) = 2 powi 52"
  by (simp_all add: power_int_def)

lemma powi_quot: "(2::rat) powi k / 2 powi l = 2 powi (k - l)"
  by (simp add: power_int_diff)

lemma powi_prod: "(2::rat) powi k * 2 powi l = 2 powi (k + l)"
  by (simp add: power_int_add)

lemma round_pos_mono:
  assumes "0 < x" "x \<le> y"
  shows "round_pos x \<le> round_pos y"
proof -
  from assms have y: "0 < y" by simp
  define kx where "kx = max (expo x) (- 1022)"
  define ky where "ky = max (expo y) (- 1022)"
  have ux: "quantum x = 2 powi (kx - 52)" and uy: "quantum y = 2 powi (ky - 52)"
    by (simp_all add: quantum_def kx_def ky_def)
  have k: "kx \<le> ky" using expo_mono [OF assms] by (simp add: kx_def ky_def)
  show ?thesis
  proof (cases "kx = ky")
    case True
    have "x / 2 powi (kx - 52) \<le> y / 2 powi (kx - 52)"
      using assms(2) two_powi_pos [of "kx - 52"] by (simp add: divide_right_mono)
    from rne_mono [OF this] two_powi_pos [of "kx - 52"] show ?thesis
      by (simp add: round_pos_def Let_def ux uy True [symmetric] mult_right_mono)
  next
    case False
    with k have lt: "kx + 1 \<le> ky" by simp
    then have ky: "ky = expo y" by (simp add: ky_def kx_def)
    have "x < 2 powi (expo x + 1)" using expo_bounds [OF assms(1)] by simp
    also have "\<dots> \<le> 2 powi (kx + 1)" by (rule two_powi_mono) (simp add: kx_def)
    finally have "x / 2 powi (kx - 52) \<le> 2 powi (kx + 1) / 2 powi (kx - 52)"
      using two_powi_pos [of "kx - 52"] by (simp add: divide_right_mono)
    also have "\<dots> = of_int (2 ^ 53)"
      by (simp only: powi_53 powi_quot) simp
    finally have "rne (x / 2 powi (kx - 52)) \<le> 2 ^ 53" by (rule rne_le)
    then have "of_int (rne (x / 2 powi (kx - 52))) * 2 powi (kx - 52) \<le> (of_int (2 ^ 53) :: rat) * 2 powi (kx - 52)"
      using two_powi_pos [of "kx - 52"] by (intro mult_right_mono) (simp_all del: of_int_power of_int_numeral)
    also have "\<dots> = 2 powi (kx + 1)"
      by (simp only: powi_53 powi_prod) (simp add: add.commute)
    also have "\<dots> \<le> 2 powi ky" using lt by (rule two_powi_mono)
    finally have a: "round_pos x \<le> 2 powi ky" by (simp add: round_pos_def Let_def ux)
    have "2 powi ky \<le> y" using expo_bounds [OF y] by (simp add: ky)
    then have "2 powi ky / 2 powi (ky - 52) \<le> y / 2 powi (ky - 52)"
      using two_powi_pos [of "ky - 52"] by (simp add: divide_right_mono)
    moreover have "(2::rat) powi ky / 2 powi (ky - 52) = of_int (2 ^ 52)"
      by (simp only: powi_52 powi_quot) simp
    ultimately have "of_int (2 ^ 52) \<le> y / 2 powi (ky - 52)" by simp
    then have r: "2 ^ 52 \<le> rne (y / 2 powi (ky - 52))" by (rule rne_ge)
    have "(2::rat) powi ky = of_int (2 ^ 52) * 2 powi (ky - 52)"
      by (simp only: powi_52 powi_prod) (simp add: add.commute)
    also have "\<dots> \<le> of_int (rne (y / 2 powi (ky - 52))) * 2 powi (ky - 52)"
      using two_powi_pos [of "ky - 52"] r
      by (intro mult_right_mono) (simp_all only: of_int_le_iff less_imp_le)
    finally have b: "2 powi ky \<le> round_pos y" by (simp add: round_pos_def Let_def uy)
    from a b show ?thesis by simp
  qed
qed

lemma rne_error: "\<bar>of_int (rne q) - q\<bar> \<le> 1 / 2"
proof -
  have "of_int \<lfloor>q\<rfloor> \<le> q" "q < of_int \<lfloor>q\<rfloor> + 1" by linarith+
  then show ?thesis by (auto simp add: rne_def Let_def abs_le_iff)
qed

lemma round_pos_error:
  assumes "0 < x"
  shows "\<bar>round_pos x - x\<bar> \<le> quantum x / 2"
proof -
  have u: "0 < quantum x" by (simp add: quantum_def two_powi_pos)
  have "round_pos x - x = (of_int (rne (x / quantum x)) - x / quantum x) * quantum x"
    using u by (simp add: round_pos_def Let_def algebra_simps)
  then have "\<bar>round_pos x - x\<bar> = \<bar>of_int (rne (x / quantum x)) - x / quantum x\<bar> * quantum x"
    using u by (simp add: abs_mult)
  also have "\<dots> \<le> 1 / 2 * quantum x"
    using rne_error [of "x / quantum x"] u by (intro mult_right_mono) simp_all
  finally show ?thesis by simp
qed

lemma binary64_pos:
  assumes "0 < x" "0 < round_pos x" "expo (round_pos x) < 1024"
  shows "binary64 x = Fin (round_pos x)"
  using assms by (simp add: binary64_def Let_def)

lemma round_pos_fixed:
  "round_pos 1 = 1"
  "round_pos (1 / 2 ^ 32) = 1 / 2 ^ 32"
  "round_pos (1 / 10) = 7205759403792794 / 2 ^ 56"
  "round_pos (7205759403792793 / 2 ^ 56) = 7205759403792793 / 2 ^ 56"
  "round_pos (3 / 10) = 5404319552844595 / 2 ^ 54"
  "round_pos (5404319552844594 / 2 ^ 54) = 5404319552844594 / 2 ^ 54"
  by code_simp+

lemma expo_1: "expo 1 = 0"
  by code_simp

lemma literals:
  "binary64 (1 / 10) = Fin (7205759403792794 / 2 ^ 56)"
  "binary64 (3 / 10) = Fin (5404319552844595 / 2 ^ 54)"
  by code_simp+


section \<open>Properties of the signal computation\<close>

lemma of_length_gt0: "js_gt (of_length xs) (Fin 0) = (xs \<noteq> [])"
  by (simp add: js_gt_def of_length_def)

lemma js_div_lengths:
  "ys \<noteq> [] \<Longrightarrow>
   js_div (of_length xs) (of_length ys) = binary64 (of_nat (length xs) / of_nat (length ys))"
  by (simp add: js_div_def of_length_def signed_zero_def binary64_def)

lemma binary64_0: "binary64 0 = Fin 0"
  by (simp add: binary64_def)

lemma ratio_range:
  fixes f n :: nat
  assumes "0 < f" "f \<le> n" "n < 2 ^ 32"
  shows "(1 :: rat) / 2 ^ 32 \<le> of_nat f / of_nat n" and "(of_nat f / of_nat n :: rat) \<le> 1"
proof -
  from assms have n: "(0::rat) < of_nat n" by simp
  have "(of_nat n :: rat) \<le> of_nat f * 2 ^ 32"
  proof -
    from assms have "n \<le> f * 2 ^ 32" by (cases f) simp_all
    then have "(of_nat n :: rat) \<le> of_nat (f * 2 ^ 32)" by (simp only: of_nat_le_iff)
    then show ?thesis by simp
  qed
  with n show "(1 :: rat) / 2 ^ 32 \<le> of_nat f / of_nat n"
    by (simp add: field_simps)
  from assms n show "(of_nat f / of_nat n :: rat) \<le> 1" by simp
qed

lemma ratio_rounds:
  fixes f n :: nat
  assumes "0 < f" "f \<le> n" "n < 2 ^ 32"
  shows "binary64 (of_nat f / of_nat n) = Fin (round_pos (of_nat f / of_nat n))"
proof -
  let ?x = "of_nat f / of_nat n :: rat"
  note r = ratio_range [OF assms]
  have x: "0 < ?x" using assms by simp
  have lo: "1 / 2 ^ 32 \<le> round_pos ?x"
    using round_pos_mono [of "1 / 2 ^ 32" ?x, unfolded round_pos_fixed] r(1) by simp
  then have pos: "0 < round_pos ?x" by (rule less_le_trans [rotated]) simp
  have "round_pos ?x \<le> 1"
    using round_pos_mono [OF x r(2)] by (simp add: round_pos_fixed)
  from expo_mono [OF pos this] have "expo (round_pos ?x) < 1024" by (simp add: expo_1)
  with x pos show ?thesis by (rule binary64_pos)
qed

lemma ratio_below_tenth:
  fixes f n :: nat
  assumes "(of_nat f / of_nat n :: rat) < 1 / 10" "0 < n" "n < 2 ^ 32"
  shows "(of_nat f / of_nat n :: rat) \<le> 7205759403792793 / 2 ^ 56"
proof -
  from assms(1,2) have "(of_nat (10 * f) :: rat) < of_nat n" by (simp add: field_simps)
  then have "10 * f < n" by (simp only: of_nat_less_iff)
  with assms(3) have "f * 72057594037927936 \<le> 7205759403792793 * n" by simp
  then have "(of_nat (f * 72057594037927936) :: rat) \<le> of_nat (7205759403792793 * n)"
    by (simp only: of_nat_le_iff)
  with assms(2) show ?thesis by (simp add: field_simps)
qed

lemma ratio_below_three_tenths:
  fixes f n :: nat
  assumes "(of_nat f / of_nat n :: rat) < 3 / 10" "0 < n" "n < 2 ^ 32"
  shows "(of_nat f / of_nat n :: rat) \<le> 5404319552844594 / 2 ^ 54"
proof -
  from assms(1,2) have "(of_nat (10 * f) :: rat) < of_nat (3 * n)" by (simp add: field_simps)
  then have "10 * f < 3 * n" by (simp only: of_nat_less_iff)
  with assms(3) have "f * 18014398509481984 \<le> 5404319552844594 * n" by simp
  then have "(of_nat (f * 18014398509481984) :: rat) \<le> of_nat (5404319552844594 * n)"
    by (simp only: of_nat_le_iff)
  with assms(2) show ?thesis by (simp add: field_simps)
qed

lemma band_of_ratio:
  fixes f n :: nat
  assumes "f \<le> n" "0 < n" "n < 2 ^ 32"
  shows "js_lt (binary64 (of_nat f / of_nat n)) (binary64 (1 / 10)) = ((of_nat f / of_nat n :: rat) < 1 / 10)"
    and "js_lt (binary64 (of_nat f / of_nat n)) (binary64 (3 / 10)) = ((of_nat f / of_nat n :: rat) < 3 / 10)"
proof -
  let ?x = "of_nat f / of_nat n :: rat"
  show "js_lt (binary64 ?x) (binary64 (1 / 10)) = (?x < 1 / 10)"
  proof (cases "f = 0")
    case True
    then show ?thesis by (simp add: binary64_0 literals)
  next
    case False
    then have f: "0 < f" by simp
    have x: "0 < ?x" using f assms by simp
    note b = ratio_rounds [OF f assms(1,3)]
    show ?thesis
    proof (cases "?x < 1 / 10")
      case True
      have "round_pos ?x \<le> 7205759403792793 / 2 ^ 56"
        using round_pos_mono [OF x ratio_below_tenth [OF True assms(2,3)], unfolded round_pos_fixed] .
      with True show ?thesis by (simp add: b literals)
    next
      case False
      then have "1 / 10 \<le> ?x" by simp
      then have "7205759403792794 / 2 ^ 56 \<le> round_pos ?x"
        using round_pos_mono [of "1 / 10" ?x, unfolded round_pos_fixed] by simp
      with False show ?thesis by (simp add: b literals)
    qed
  qed
  show "js_lt (binary64 ?x) (binary64 (3 / 10)) = (?x < 3 / 10)"
  proof (cases "f = 0")
    case True
    then show ?thesis by (simp add: binary64_0 literals)
  next
    case False
    then have f: "0 < f" by simp
    have x: "0 < ?x" using f assms by simp
    note b = ratio_rounds [OF f assms(1,3)]
    show ?thesis
    proof (cases "?x < 3 / 10")
      case True
      have "round_pos ?x \<le> 5404319552844594 / 2 ^ 54"
        using round_pos_mono [OF x ratio_below_three_tenths [OF True assms(2,3)], unfolded round_pos_fixed] .
      with True show ?thesis by (simp add: b literals)
    next
      case False
      then have "3 / 10 \<le> ?x" by simp
      then have "5404319552844595 / 2 ^ 54 \<le> round_pos ?x"
        using round_pos_mono [of "3 / 10" ?x, unfolded round_pos_fixed] by simp
      with False show ?thesis by (simp add: b literals)
    qed
  qed
qed

lemma ratio_accuracy:
  fixes f n :: nat
  assumes "f \<le> n" "0 < n" "n < 2 ^ 32"
  shows "\<exists>r. binary64 (of_nat f / of_nat n) = Fin r \<and> \<bar>r - of_nat f / of_nat n\<bar> \<le> 1 / 2 ^ 53"
proof (cases "f = 0")
  case True
  then show ?thesis by (simp add: binary64_def)
next
  case False
  then have f: "0 < f" by simp
  let ?x = "of_nat f / of_nat n :: rat"
  have x: "0 < ?x" using f assms by simp
  have "expo ?x \<le> expo 1" using expo_mono [OF x ratio_range(2) [OF f assms(1,3)]] .
  then have "max (expo ?x) (- 1022) - 52 \<le> - 52" by (simp add: expo_1)
  then have "quantum ?x \<le> 2 powi (- 52)" unfolding quantum_def by (rule two_powi_mono)
  then have "quantum ?x / 2 \<le> 1 / 2 ^ 53" by (simp add: power_int_def field_simps)
  with round_pos_error [OF x] have "\<bar>round_pos ?x - ?x\<bar> \<le> 1 / 2 ^ 53" by linarith
  with ratio_rounds [OF f assms(1,3)] show ?thesis by blast
qed


lemma key0: "getTestId P0 (reporter0 h) test0 = ''a.spec.ts::logs in''"
  by (simp add: getTestId_def P0_def reporter0_def test0_def rel0_def)

lemma lookup0:
  "lookup_entries (history (reporter0 [''a.spec.ts::logs in'' \<mapsto> es]))
     (getTestId P0 (reporter0 [''a.spec.ts::logs in'' \<mapsto> es]) test0) = es"
  by (simp add: key0) (simp add: reporter0_def lookup_entries_def)

text \<open>
  C1. When the history of the test holds at least one entry, the flakiness score
  attached to the result is the number of entries that did not pass divided by the number
  of entries: the quotient of the two counts as the division of two numbers gives it,
  which is the binary64 value nearest to the exact quotient and differs from it by
  \<open>2 powi (- 53)\<close> at most. The indicator follows the bands of the exact quotient: below
  0.1 \<open>Stable\<close>, from 0.1 and below 0.3 \<open>Unstable\<close>, from 0.3 \<open>Flaky\<close>; a score of exactly
  0.1 is \<open>Unstable\<close> and a score of exactly 0.3 is \<open>Flaky\<close>. The rounding of the quotient
  and of the two literals moves no score to another band, for every sequence that an
  array can hold (fewer than \<open>2 ^ 32\<close> entries).
\<close>

theorem flakiness_score_and_bands:
  assumes "lookup_entries (history this) (getTestId P this test) = es" and "es \<noteq> []"
    and "length es < 2 ^ 32"
  shows "let d = last (results (onTestEnd P this test result));
             failures = filter (\<lambda>e. \<not> passed e) es;
             score = (of_nat (length failures) / of_nat (length es) :: rat)
         in flakinessScore d = Some (js_div (of_length failures) (of_length es)) \<and>
            flakinessScore d = Some (binary64 score) \<and>
            (\<exists>r. flakinessScore d = Some (Fin r) \<and> \<bar>r - score\<bar> \<le> 1 / 2 ^ 53) \<and>
            flakinessIndicator d =
              Some (if score < 1 / 10 then Stable else if score < 3 / 10 then Unstable else Flaky)"
proof -
  let ?f = "length (filter (\<lambda>e. \<not> passed e) es)"
  have le: "?f \<le> length es" by (rule length_filter_le)
  have pos: "0 < length es" using assms(2) by simp
  note band = band_of_ratio [OF le pos assms(3)]
  note acc = ratio_accuracy [OF le pos assms(3)]
  have d: "flakinessScore (last (results (onTestEnd P this test result))) =
             Some (js_div (of_length (filter (\<lambda>e. \<not> passed e) es)) (of_length es))"
    "flakinessIndicator (last (results (onTestEnd P this test result))) =
             Some (getFlakinessIndicator (js_div (of_length (filter (\<lambda>e. \<not> passed e) es)) (of_length es)))"
    using assms(1,2) by (simp_all add: onTestEnd_def Let_def of_length_gt0)
  show ?thesis
    unfolding Let_def d js_div_lengths [OF assms(2)] getFlakinessIndicator_def band
    using acc by simp
qed

theorem flakiness_score_and_bands_witness:
  "flakinessScore (last (results (onTestEnd P0 (reporter0 [''a.spec.ts::logs in'' \<mapsto> one_in_ten]) test0 (result0 Passed 100)))) = Some (Fin (7205759403792794 / 2 ^ 56))
   \<and> flakinessIndicator (last (results (onTestEnd P0 (reporter0 [''a.spec.ts::logs in'' \<mapsto> one_in_ten]) test0 (result0 Passed 100)))) = Some Unstable
   \<and> flakinessScore (last (results (onTestEnd P0 (reporter0 [''a.spec.ts::logs in'' \<mapsto> three_in_ten]) test0 (result0 Passed 100)))) = Some (Fin (5404319552844595 / 2 ^ 54))
   \<and> flakinessIndicator (last (results (onTestEnd P0 (reporter0 [''a.spec.ts::logs in'' \<mapsto> three_in_ten]) test0 (result0 Passed 100)))) = Some Flaky"
proof -
  have n1: "one_in_ten \<noteq> []" by (simp add: one_in_ten_def)
  have n3: "three_in_ten \<noteq> []" by (simp add: three_in_ten_def)
  have l1: "length one_in_ten < 2 ^ 32" by (simp add: one_in_ten_def)
  have l3: "length three_in_ten < 2 ^ 32" by (simp add: three_in_ten_def)
  have s1: "(of_nat (length (filter (\<lambda>e. \<not> passed e) one_in_ten)) / of_nat (length one_in_ten) :: rat) = 1 / 10"
    by (simp add: one_in_ten_def entry_def)
  have s3: "(of_nat (length (filter (\<lambda>e. \<not> passed e) three_in_ten)) / of_nat (length three_in_ten) :: rat) = 3 / 10"
    by (simp add: three_in_ten_def entry_def)
  note a = flakiness_score_and_bands [OF lookup0 n1 l1, of "result0 Passed 100", unfolded Let_def s1 literals]
  note b = flakiness_score_and_bands [OF lookup0 n3 l3, of "result0 Passed 100", unfolded Let_def s3 literals]
  have 1: "flakinessScore (last (results (onTestEnd P0 (reporter0 [''a.spec.ts::logs in'' \<mapsto> one_in_ten]) test0 (result0 Passed 100)))) = Some (Fin (7205759403792794 / 2 ^ 56))"
    using a by (elim conjE)
  have 2: "flakinessIndicator (last (results (onTestEnd P0 (reporter0 [''a.spec.ts::logs in'' \<mapsto> one_in_ten]) test0 (result0 Passed 100)))) = Some Unstable"
    using a [THEN conjunct2, THEN conjunct2, THEN conjunct2] by simp
  have 3: "flakinessScore (last (results (onTestEnd P0 (reporter0 [''a.spec.ts::logs in'' \<mapsto> three_in_ten]) test0 (result0 Passed 100)))) = Some (Fin (5404319552844595 / 2 ^ 54))"
    using b by (elim conjE)
  have 4: "flakinessIndicator (last (results (onTestEnd P0 (reporter0 [''a.spec.ts::logs in'' \<mapsto> three_in_ten]) test0 (result0 Passed 100)))) = Some Flaky"
    using b [THEN conjunct2, THEN conjunct2, THEN conjunct2] by simp
  from 1 2 3 4 show ?thesis by (intro conjI)
qed

text \<open>
  C5. When the history holds no entry for the test (the key is absent, or its sequence is
  empty), the result carries the indicator \<open>New\<close> and the trend \<open>Baseline\<close>, and neither
  a flakiness score nor an average duration.
\<close>

theorem empty_history_new_baseline:
  assumes "lookup_entries (history this) (getTestId P this test) = []"
  shows "let d = last (results (onTestEnd P this test result))
         in flakinessIndicator d = Some New \<and> performanceTrend d = Some Baseline \<and>
            flakinessScore d = None \<and> averageDuration d = None"
  using assms
  by (simp add: onTestEnd_def Let_def of_length_gt0 split: list.splits)

theorem empty_history_new_baseline_witness:
  "flakinessIndicator (last (results (onTestEnd P0 (reporter0 Map.empty) test0 (result0 Passed 500)))) = Some New
   \<and> performanceTrend (last (results (onTestEnd P0 (reporter0 Map.empty) test0 (result0 Passed 500)))) = Some Baseline
   \<and> flakinessScore (last (results (onTestEnd P0 (reporter0 Map.empty) test0 (result0 Passed 500)))) = None
   \<and> averageDuration (last (results (onTestEnd P0 (reporter0 Map.empty) test0 (result0 Passed 500)))) = None"
proof -
  have h: "lookup_entries (history (reporter0 Map.empty)) (getTestId P0 (reporter0 Map.empty) test0) = []"
    by (simp add: reporter0_def lookup_entries_def)
  show ?thesis
    using empty_history_new_baseline [OF h, of "result0 Passed 500"]
    by (simp add: Let_def)
qed

subsection \<open>The performance trend\<close>

lemma binary64_nat:
  fixes k :: nat
  assumes "k < 2 ^ 53"
  shows "binary64 (of_nat k) = Fin (of_nat k)"
proof (cases "k = 0")
  case True
  then show ?thesis by (simp add: binary64_0)
next
  case False
  let ?x = "of_nat k :: rat"
  have x: "0 < ?x" using False by simp
  have x1: "1 \<le> ?x" using False by simp
  have x53: "?x < 2 powi 53"
  proof -
    from assms have "(of_nat k :: rat) < of_nat (2 ^ 53)" by (simp only: of_nat_less_iff)
    then show ?thesis by simp
  qed
  note b = expo_bounds [OF x]
  have lo: "0 \<le> expo ?x"
  proof (rule ccontr)
    assume "\<not> 0 \<le> expo ?x"
    then have "expo ?x + 1 \<le> 0" by simp
    then have "(2::rat) powi (expo ?x + 1) \<le> 2 powi 0" by (rule two_powi_mono)
    with b x1 show False by simp
  qed
  have hi: "expo ?x \<le> 52"
  proof (rule ccontr)
    assume "\<not> expo ?x \<le> 52"
    then have "53 \<le> expo ?x" by simp
    then have "(2::rat) powi 53 \<le> 2 powi (expo ?x)" by (rule two_powi_mono)
    with b x53 show False by simp
  qed
  from lo have q: "quantum ?x = 2 powi (expo ?x - 52)" by (simp add: quantum_def max_def)
  define j where "j = nat (52 - expo ?x)"
  have j: "expo ?x - 52 = - int j" using hi by (simp add: j_def)
  have u: "quantum ?x = 1 / 2 ^ j" by (simp add: q j power_int_minus field_simps)
  have "?x / quantum ?x = of_int (int k * 2 ^ j)" by (simp add: u)
  then have "rne (?x / quantum ?x) = int k * 2 ^ j" by (simp only: rne_of_int)
  then have r: "round_pos ?x = ?x" by (simp add: round_pos_def Let_def u)
  from hi have "expo (round_pos ?x) < 1024" by (simp add: r)
  with x show ?thesis using binary64_pos [of ?x] by (simp add: r)
qed

lemma foldl_add_nats:
  assumes "\<forall>e\<in>set es. \<exists>n::nat. duration e = Fin (of_nat n)"
    and "sum_list (map (\<lambda>e. val (duration e)) es) < 2 ^ 53"
  shows "\<exists>m::nat. sum_list (map (\<lambda>e. val (duration e)) es) = of_nat m \<and>
           foldl (\<lambda>sum e. js_add sum (duration e)) (Fin 0) es = Fin (of_nat m)"
  using assms
proof (induction es rule: rev_induct)
  case Nil
  show ?case by (intro exI [of _ 0]) simp
next
  case (snoc x xs)
  from snoc.prems(1) obtain n :: nat where n: "duration x = Fin (of_nat n)" by auto
  from snoc.prems(2) n have "sum_list (map (\<lambda>e. val (duration e)) xs) < 2 ^ 53"
    by simp
  with snoc obtain m :: nat where m: "sum_list (map (\<lambda>e. val (duration e)) xs) = of_nat m"
    "foldl (\<lambda>sum e. js_add sum (duration e)) (Fin 0) xs = Fin (of_nat m)"
    by auto
  from snoc.prems(2) have "(of_nat (m + n) :: rat) < of_nat (2 ^ 53)" by (simp add: m n)
  then have "m + n < 2 ^ 53" by (simp only: of_nat_less_iff)
  from binary64_nat [OF this] have "js_add (Fin (of_nat m)) (Fin (of_nat n)) = Fin (of_nat (m + n))"
    by simp
  then show ?case by (intro exI [of _ "m + n"]) (simp add: m n)
qed

lemma js_div_nat_length:
  "ys \<noteq> [] \<Longrightarrow> js_div (Fin (of_nat m)) (of_length ys) = binary64 (of_nat m / of_nat (length ys))"
  by (simp add: js_div_def of_length_def signed_zero_def binary64_0)

lemma mean_of_nats:
  assumes "es \<noteq> []" and "\<forall>e\<in>set es. \<exists>n::nat. duration e = Fin (of_nat n)"
    and "sum_list (map (\<lambda>e. val (duration e)) es) < 2 ^ 53"
  shows "js_div (foldl (\<lambda>sum e. js_add sum (duration e)) (Fin 0) es) (of_length es) =
           binary64 (sum_list (map (\<lambda>e. val (duration e)) es) / of_nat (length es))"
proof -
  from foldl_add_nats [OF assms(2,3)] obtain m :: nat
    where m: "sum_list (map (\<lambda>e. val (duration e)) es) = of_nat m"
      "foldl (\<lambda>sum e. js_add sum (duration e)) (Fin 0) es = Fin (of_nat m)"
    by blast
  show ?thesis unfolding m by (rule js_div_nat_length [OF assms(1)])
qed

lemma le_not_lt: "js_le a b \<Longrightarrow> \<not> js_lt b a"
  by (cases a; cases b) auto

lemma Math_round_nearest:
  "is_finite (Math_round (Fin p)) \<and>
   (\<exists>k::int. val (Math_round (Fin p)) = of_int k \<and> of_int k - 1 / 2 \<le> p \<and> p < of_int k + 1 / 2)"
proof -
  have "of_int \<lfloor>p + 1 / 2\<rfloor> \<le> p + 1 / 2" "p + 1 / 2 < of_int \<lfloor>p + 1 / 2\<rfloor> + 1"
    by linarith+
  then have "of_int \<lfloor>p + 1 / 2\<rfloor> - 1 / 2 \<le> p \<and> p < of_int \<lfloor>p + 1 / 2\<rfloor> + 1 / 2" by linarith
  moreover have "val (Math_round (Fin p)) = of_int \<lfloor>p + 1 / 2\<rfloor>" "is_finite (Math_round (Fin p))"
    by (simp_all add: Let_def signed_zero_def)
  ultimately show ?thesis by metis
qed

lemma trend_onTestEnd:
  assumes "lookup_entries (history this) (getTestId P this test) = es" and "es \<noteq> []"
  shows "performanceTrend (last (results (onTestEnd P this test result))) =
           Some (getPerformanceTrend this (tr_duration result)
                  (js_div (foldl (\<lambda>sum e. js_add sum (duration e)) (Fin 0) es) (of_length es)))"
    and "averageDuration (last (results (onTestEnd P this test result))) =
           Some (js_div (foldl (\<lambda>sum e. js_add sum (duration e)) (Fin 0) es) (of_length es))"
  using assms by (simp_all add: onTestEnd_def Let_def of_length_gt0)

text \<open>
  C2, as amended. When the history of the test holds at least one entry, the
  average attached to the result is the sum of the durations, added one after the other
  from 0, divided by their number; for durations that are whole numbers of milliseconds
  with a sum below \<open>2 ^ 53\<close> this is the binary64 value nearest to the exact mean. With
  \<open>diff\<close> the quotient \<open>(current - average) / average\<close> as the two operations compute it,
  the trend is \<open>slower\<close> when \<open>diff\<close> is above the threshold, otherwise \<open>faster\<close> when
  \<open>diff\<close> is below the negated threshold, and \<open>Stable\<close> otherwise, whatever the signs of
  threshold and average. The percentage is \<open>Math.round\<close> of the computed product of
  \<open>diff\<close> (of its absolute value) and 100: when that product is a finite number \<open>p\<close>, the
  integer \<open>k\<close> with \<open>k - 1/2 \<le> p < k + 1/2\<close>. A computed \<open>diff\<close> within
  \<open>[- threshold, threshold]\<close>, both ends included, gives \<open>Stable\<close>.
\<close>

theorem performance_trend_cases:
  assumes "lookup_entries (history this) (getTestId P this test) = es" and "es \<noteq> []"
  shows "let d = last (results (onTestEnd P this test result));
             thr = performanceThreshold (options this);
             avg = js_div (foldl (\<lambda>sum e. js_add sum (duration e)) (Fin 0) es) (of_length es);
             diff = js_div (js_sub (tr_duration result) avg) avg;
             up = Math_round (js_mul diff (Fin 100));
             down = Math_round (js_mul (Math_abs diff) (Fin 100))
         in averageDuration d = Some avg
          \<and> ((\<forall>e\<in>set es. \<exists>n::nat. duration e = Fin (of_nat n))
               \<and> sum_list (map (\<lambda>e. val (duration e)) es) < 2 ^ 53 \<longrightarrow>
               avg = binary64 (sum_list (map (\<lambda>e. val (duration e)) es) / of_nat (length es)))
          \<and> performanceTrend d =
               Some (if js_gt diff thr then Slower up
                     else if js_lt diff (js_neg thr) then Faster down
                     else StableTrend)
          \<and> (js_le (js_neg thr) diff \<and> js_le diff thr \<longrightarrow> performanceTrend d = Some StableTrend)
          \<and> (\<forall>p. js_mul diff (Fin 100) = Fin p \<longrightarrow>
                is_finite up \<and> (\<exists>k::int. val up = of_int k \<and> of_int k - 1 / 2 \<le> p \<and> p < of_int k + 1 / 2))
          \<and> (\<forall>p. js_mul (Math_abs diff) (Fin 100) = Fin p \<longrightarrow>
                is_finite down \<and> (\<exists>k::int. val down = of_int k \<and> of_int k - 1 / 2 \<le> p \<and> p < of_int k + 1 / 2))"
proof -
  define avg where "avg = js_div (foldl (\<lambda>sum e. js_add sum (duration e)) (Fin 0) es) (of_length es)"
  define diff where "diff = js_div (js_sub (tr_duration result) avg) avg"
  define thr where "thr = performanceThreshold (options this)"
  note t = trend_onTestEnd [OF assms, of result, folded avg_def]
  have 1: "averageDuration (last (results (onTestEnd P this test result))) = Some avg"
    by (rule t(2))
  have 2: "(\<forall>e\<in>set es. \<exists>n::nat. duration e = Fin (of_nat n))
             \<and> sum_list (map (\<lambda>e. val (duration e)) es) < 2 ^ 53 \<longrightarrow>
           avg = binary64 (sum_list (map (\<lambda>e. val (duration e)) es) / of_nat (length es))"
    unfolding avg_def using mean_of_nats [OF assms(2)] by blast
  have 3: "performanceTrend (last (results (onTestEnd P this test result))) =
             Some (if js_gt diff thr then Slower (Math_round (js_mul diff (Fin 100)))
                   else if js_lt diff (js_neg thr) then Faster (Math_round (js_mul (Math_abs diff) (Fin 100)))
                   else StableTrend)"
    unfolding t(1) by (simp add: getPerformanceTrend_def Let_def diff_def thr_def)
  have 4: "js_le (js_neg thr) diff \<and> js_le diff thr \<longrightarrow>
           performanceTrend (last (results (onTestEnd P this test result))) = Some StableTrend"
    unfolding 3 using le_not_lt [of "js_neg thr" diff] le_not_lt [of diff thr]
    by (simp add: js_gt_def)
  have 5: "\<forall>p. js_mul diff (Fin 100) = Fin p \<longrightarrow>
             is_finite (Math_round (js_mul diff (Fin 100))) \<and>
             (\<exists>k::int. val (Math_round (js_mul diff (Fin 100))) = of_int k \<and> of_int k - 1 / 2 \<le> p \<and> p < of_int k + 1 / 2)"
    using Math_round_nearest by simp
  have 6: "\<forall>p. js_mul (Math_abs diff) (Fin 100) = Fin p \<longrightarrow>
             is_finite (Math_round (js_mul (Math_abs diff) (Fin 100))) \<and>
             (\<exists>k::int. val (Math_round (js_mul (Math_abs diff) (Fin 100))) = of_int k \<and> of_int k - 1 / 2 \<le> p \<and> p < of_int k + 1 / 2)"
    using Math_round_nearest by simp
  from 1 2 3 4 5 6 show ?thesis
    unfolding Let_def avg_def [symmetric] diff_def [symmetric] thr_def [symmetric]
    by (intro conjI)
qed


lemma div_zero_zero: "is_zero a \<Longrightarrow> is_zero c \<Longrightarrow> js_div (js_sub c a) a = NaN"
  by (cases a; cases c) (auto simp: js_div_def js_sub_def)

lemma div_pos_zero:
  "is_zero a \<Longrightarrow> js_gt c (Fin 0) \<Longrightarrow> js_div (js_sub c a) a = signed_inf (sign_bit a)"
  by (cases a; cases c) (auto simp: js_div_def js_sub_def js_gt_def signed_inf_def)

lemma div_neg_zero:
  "is_zero a \<Longrightarrow> js_lt c (Fin 0) \<Longrightarrow> js_div (js_sub c a) a = signed_inf (\<not> sign_bit a)"
  by (cases a; cases c) (auto simp: js_div_def js_sub_def js_gt_def signed_inf_def)

lemma nan_cmp: "\<not> js_gt NaN t" "\<not> js_lt NaN t"
  by (cases t; simp add: js_gt_def)+

text \<open>
  C10. \<open>getPerformanceTrend\<close> has no guard for a zero average. For every input it returns
  one of its three trends, and no operation in it raises. When the average is zero the
  quotient is still computed and alone decides the branch: it is NaN when the current
  duration is zero too, and then every comparison fails and the trend is \<open>Stable\<close>; it is
  an infinity when the current duration is not zero, and for the positive zero, a positive
  current duration and a finite threshold the trend is \<open>Infinity% slower\<close>.
\<close>

theorem zero_average_unguarded:
  "(\<exists>n. getPerformanceTrend this current average = Slower n
        \<or> getPerformanceTrend this current average = Faster n
        \<or> getPerformanceTrend this current average = StableTrend)
   \<and> (is_zero average \<longrightarrow>
        (let q = js_div (js_sub current average) average;
             thr = performanceThreshold (options this)
         in getPerformanceTrend this current average =
              (if js_gt q thr then Slower (Math_round (js_mul q (Fin 100)))
               else if js_lt q (js_neg thr) then Faster (Math_round (js_mul (Math_abs q) (Fin 100)))
               else StableTrend)
            \<and> (is_zero current \<longrightarrow> q = NaN \<and> getPerformanceTrend this current average = StableTrend)
            \<and> (js_gt current (Fin 0) \<longrightarrow> q = signed_inf (sign_bit average))
            \<and> (js_lt current (Fin 0) \<longrightarrow> q = signed_inf (\<not> sign_bit average))
            \<and> (js_gt current (Fin 0) \<and> average = Fin 0 \<and> is_finite thr \<longrightarrow>
                 getPerformanceTrend this current average = Slower PosInf)))"
proof -
  have a: "\<exists>n. getPerformanceTrend this current average = Slower n
        \<or> getPerformanceTrend this current average = Faster n
        \<or> getPerformanceTrend this current average = StableTrend"
    by (simp add: getPerformanceTrend_def Let_def)
  have b: "is_zero average \<Longrightarrow> is_zero current \<Longrightarrow>
           getPerformanceTrend this current average = StableTrend"
    by (simp add: getPerformanceTrend_def Let_def div_zero_zero nan_cmp)
  have c: "js_gt current (Fin 0) \<Longrightarrow> average = Fin 0 \<Longrightarrow>
           is_finite (performanceThreshold (options this)) \<Longrightarrow>
           getPerformanceTrend this current average = Slower PosInf"
    by (cases "performanceThreshold (options this)")
       (simp_all add: getPerformanceTrend_def Let_def div_pos_zero signed_inf_def js_gt_def js_mul_def)
  show ?thesis
    using a b c
    by (simp add: Let_def div_zero_zero div_pos_zero div_neg_zero)
       (simp add: getPerformanceTrend_def Let_def)
qed

lemma threshold_literal:
  "binary64 (2 / 10) = Fin (3602879701896397 / 2 ^ 54)"
  "binary64 (1 / 5) = Fin (3602879701896397 / 2 ^ 54)"
  by code_simp+

lemma threshold0: "performanceThreshold (options (reporter0 h)) = Fin (3602879701896397 / 2 ^ 54)"
  by (simp add: reporter0_def constructor_def no_options_def or_default_def threshold_literal)

theorem zero_average_unguarded_witness:
  "getPerformanceTrend (reporter0 Map.empty) (Fin 0) (Fin 0) = StableTrend
   \<and> getPerformanceTrend (reporter0 Map.empty) NegZero NegZero = StableTrend
   \<and> getPerformanceTrend (reporter0 Map.empty) (Fin 5) (Fin 0) = Slower PosInf"
proof -
  have z: "is_zero (Fin 0)" and nz: "is_zero NegZero" by simp_all
  have gt: "js_gt (Fin 5) (Fin 0)" by (simp add: js_gt_def)
  have fin: "is_finite (performanceThreshold (options (reporter0 Map.empty)))"
    by (simp add: threshold0)
  have "getPerformanceTrend (reporter0 Map.empty) (Fin 0) (Fin 0) = StableTrend"
    using zero_average_unguarded [of "reporter0 Map.empty" "Fin 0" "Fin 0", THEN conjunct2, THEN mp, OF z] z
    unfolding Let_def by blast
  moreover have "getPerformanceTrend (reporter0 Map.empty) NegZero NegZero = StableTrend"
    using zero_average_unguarded [of "reporter0 Map.empty" NegZero NegZero, THEN conjunct2, THEN mp, OF nz] nz
    unfolding Let_def by blast
  moreover have "getPerformanceTrend (reporter0 Map.empty) (Fin 5) (Fin 0) = Slower PosInf"
    using zero_average_unguarded [of "reporter0 Map.empty" "Fin 5" "Fin 0", THEN conjunct2, THEN mp, OF z] gt fin
    unfolding Let_def by blast
  ultimately show ?thesis by simp
qed




lemma lookup_took:
  "lookup_entries (history (reporter0 (took ds))) (getTestId P0 (reporter0 (took ds)) test0) =
     map (entry True) ds"
  unfolding took_def by (rule lookup0)

lemma took_ne: "map (entry True) (d # ds) \<noteq> []"
  by simp

lemma eager_literal: "binary64 (- 1 / 2) = Fin (- 1 / 2)" "binary64 (- (1 / 2)) = Fin (- 1 / 2)"
  by code_simp+

lemma eager_threshold: "performanceThreshold (options (eager_reporter h)) = Fin (- 1 / 2)"
  by (simp add: eager_reporter_def eager_options_def constructor_def no_options_def or_default_def eager_literal)

lemma eager_lookup:
  "lookup_entries (history (eager_reporter (took ds))) (getTestId P0 (eager_reporter (took ds)) test0) =
     map (entry True) ds"
  by (simp add: getTestId_def P0_def eager_reporter_def test0_def rel0_def took_def lookup_entries_def)

lemma cur0: "tr_duration (result0 st ms) = Fin ms"
  by (simp add: result0_def)

text \<open>
  C2 as stated fails. A history with the durations 28, 28 and 29 ms has the mean
  \<open>85 / 3\<close>, and with the default threshold 0.2 a current duration of 34 ms is the upper
  end \<open>average * (1 + threshold)\<close> of the band: as exact numbers, and also as the program's
  arithmetic computes that product from the average it attaches. The trend is
  \<open>20% slower\<close>, not \<open>Stable\<close>: the quotient that the program computes is the binary64
  value next above 0.2. And with the threshold \<open>-0.5\<close>, a current duration of 33 ms after
  one of 30 ms has a quotient below the negated threshold, and the trend is
  \<open>10% slower\<close>, not \<open>faster\<close>.
\<close>

theorem performance_trend_counterexample:
  "performanceTrend (last (results (onTestEnd P0 (reporter0 (took [28, 28, 29])) test0 (result0 Passed 34)))) = Some (Slower (Fin 20))
   \<and> averageDuration (last (results (onTestEnd P0 (reporter0 (took [28, 28, 29])) test0 (result0 Passed 34)))) = Some (binary64 (85 / 3))
   \<and> js_le (js_mul (binary64 (85 / 3)) (js_sub (Fin 1) (performanceThreshold (options (reporter0 (took [28, 28, 29])))))) (Fin 34)
   \<and> js_le (Fin 34) (js_mul (binary64 (85 / 3)) (js_add (Fin 1) (performanceThreshold (options (reporter0 (took [28, 28, 29]))))))
   \<and> js_mul (binary64 (85 / 3)) (js_add (Fin 1) (performanceThreshold (options (reporter0 (took [28, 28, 29]))))) = Fin 34
   \<and> (85 / 3) * (1 - 2 / 10) \<le> (34 :: rat) \<and> (34 :: rat) \<le> (85 / 3) * (1 + 2 / 10)
   \<and> performanceTrend (last (results (onTestEnd P0 (eager_reporter (took [30])) test0 (result0 Passed 33)))) = Some (Slower (Fin 10))
   \<and> js_lt (js_div (js_sub (Fin 33) (Fin 30)) (Fin 30)) (js_neg (performanceThreshold (options (eager_reporter (took [30])))))"
proof -
  have avg: "js_div (foldl (\<lambda>sum e. js_add sum (duration e)) (Fin 0) (map (entry True) [28, 28, 29]))
               (of_length (map (entry True) [28, 28, 29])) = binary64 (85 / 3)"
    and avg30: "js_div (foldl (\<lambda>sum e. js_add sum (duration e)) (Fin 0) (map (entry True) [30]))
               (of_length (map (entry True) [30])) = Fin 30"
    by code_simp+
  have a: "Some (Slower (Math_round (js_mul (js_div (js_sub (Fin 34) (binary64 (85 / 3))) (binary64 (85 / 3))) (Fin 100)))) = Some (Slower (Fin 20))"
    and b: "js_gt (js_div (js_sub (Fin 34) (binary64 (85 / 3))) (binary64 (85 / 3))) (Fin (3602879701896397 / 2 ^ 54))"
    and c: "js_le (js_mul (binary64 (85 / 3)) (js_sub (Fin 1) (Fin (3602879701896397 / 2 ^ 54)))) (Fin 34)"
    and d: "js_mul (binary64 (85 / 3)) (js_add (Fin 1) (Fin (3602879701896397 / 2 ^ 54))) = Fin 34"
    and e: "js_gt (js_div (js_sub (Fin 33) (Fin 30)) (Fin 30)) (Fin (- 1 / 2))"
    and f: "Math_round (js_mul (js_div (js_sub (Fin 33) (Fin 30)) (Fin 30)) (Fin 100)) = Fin 10"
    and g: "js_lt (js_div (js_sub (Fin 33) (Fin 30)) (Fin 30)) (js_neg (Fin (- 1 / 2)))"
    by code_simp+
  have 1: "performanceTrend (last (results (onTestEnd P0 (reporter0 (took [28, 28, 29])) test0 (result0 Passed 34)))) = Some (Slower (Fin 20))"
    unfolding trend_onTestEnd [OF lookup_took took_ne] avg cur0 getPerformanceTrend_def Let_def threshold0
    using a b by simp
  have 2: "averageDuration (last (results (onTestEnd P0 (reporter0 (took [28, 28, 29])) test0 (result0 Passed 34)))) = Some (binary64 (85 / 3))"
    unfolding trend_onTestEnd [OF lookup_took took_ne] avg by (rule refl)
  have 3: "performanceTrend (last (results (onTestEnd P0 (eager_reporter (took [30])) test0 (result0 Passed 33)))) = Some (Slower (Fin 10))"
    unfolding trend_onTestEnd [OF eager_lookup took_ne] avg30 cur0 getPerformanceTrend_def Let_def eager_threshold
    using e f by simp
  have 4: "(85 / 3) * (1 - 2 / 10) \<le> (34 :: rat)" "(34 :: rat) \<le> (85 / 3) * (1 + 2 / 10)"
    by simp_all
  have 5: "js_le (Fin 34) (Fin 34)" by simp
  show ?thesis
    unfolding threshold0 eager_threshold d
    using 1 2 3 4 5 c g by (intro conjI refl)
qed

theorem performance_trend_cases_witness:
  "performanceTrend (last (results (onTestEnd P0 (reporter0 (took [40])) test0 (result0 Passed 63)))) = Some (Slower (Fin 57))
   \<and> val (Math_round (js_mul (js_div (js_sub (Fin 63) (Fin 40)) (Fin 40)) (Fin 100))) = 57
   \<and> performanceTrend (last (results (onTestEnd P0 (reporter0 (took [40])) test0 (result0 Passed 17)))) = Some (Faster (Fin 57))
   \<and> performanceTrend (last (results (onTestEnd P0 (reporter0 (took [30])) test0 (result0 Passed 36)))) = Some StableTrend
   \<and> performanceTrend (last (results (onTestEnd P0 (reporter0 (took [30])) test0 (result0 Passed 24)))) = Some StableTrend
   \<and> averageDuration (last (results (onTestEnd P0 (reporter0 (took [28, 28, 29])) test0 (result0 Passed 34)))) = Some (binary64 (85 / 3))"
proof -
  have cur: "\<And>st ms. tr_duration (result0 st ms) = Fin ms" by (simp add: result0_def)
  have avg40: "js_div (foldl (\<lambda>sum e. js_add sum (duration e)) (Fin 0) (map (entry True) [40])) (of_length (map (entry True) [40])) = Fin 40"
    and avg30: "js_div (foldl (\<lambda>sum e. js_add sum (duration e)) (Fin 0) (map (entry True) [30])) (of_length (map (entry True) [30])) = Fin 30"
    by code_simp+
  note T40 = performance_trend_cases [OF lookup_took [of "[40]"] took_ne [of 40 "[]"], unfolded Let_def avg40 threshold0 cur]
  note T30 = performance_trend_cases [OF lookup_took [of "[30]"] took_ne [of 30 "[]"], unfolded Let_def avg30 threshold0 cur]
  note T28 = performance_trend_cases [OF lookup_took [of "[28, 28, 29]"] took_ne [of 28 "[28, 29]"], unfolded Let_def]
  have s1: "js_gt (js_div (js_sub (Fin 63) (Fin 40)) (Fin 40)) (Fin (3602879701896397 / 2 ^ 54))"
    and s2: "Math_round (js_mul (js_div (js_sub (Fin 63) (Fin 40)) (Fin 40)) (Fin 100)) = Fin 57"
    and s3: "js_mul (js_div (js_sub (Fin 63) (Fin 40)) (Fin 40)) (Fin 100) = Fin (8092405580431359 / 2 ^ 47)"
    by code_simp+
  have f0: "\<not> js_gt (js_div (js_sub (Fin 17) (Fin 40)) (Fin 40)) (Fin (3602879701896397 / 2 ^ 54))"
    and f1: "js_lt (js_div (js_sub (Fin 17) (Fin 40)) (Fin 40)) (js_neg (Fin (3602879701896397 / 2 ^ 54)))"
    and f2: "Math_round (js_mul (Math_abs (js_div (js_sub (Fin 17) (Fin 40)) (Fin 40))) (Fin 100)) = Fin 57"
    by code_simp+
  have b1: "js_le (js_neg (Fin (3602879701896397 / 2 ^ 54))) (js_div (js_sub (Fin 36) (Fin 30)) (Fin 30))"
    and b2: "js_le (js_div (js_sub (Fin 36) (Fin 30)) (Fin 30)) (Fin (3602879701896397 / 2 ^ 54))"
    and b3: "js_le (js_neg (Fin (3602879701896397 / 2 ^ 54))) (js_div (js_sub (Fin 24) (Fin 30)) (Fin 30))"
    and b4: "js_le (js_div (js_sub (Fin 24) (Fin 30)) (Fin 30)) (Fin (3602879701896397 / 2 ^ 54))"
    by code_simp+
  have 1: "performanceTrend (last (results (onTestEnd P0 (reporter0 (took [40])) test0 (result0 Passed 63)))) = Some (Slower (Fin 57))"
    using T40 [of "result0 Passed 63", unfolded cur, THEN conjunct2, THEN conjunct2, THEN conjunct1] s1 s2
    by simp
  from T40 [of "result0 Passed 63", unfolded cur, THEN conjunct2, THEN conjunct2, THEN conjunct2,
            THEN conjunct2, THEN conjunct1, rule_format, OF s3]
  obtain k :: int where k: "val (Math_round (js_mul (js_div (js_sub (Fin 63) (Fin 40)) (Fin 40)) (Fin 100))) = of_int k"
    "of_int k - 1 / 2 \<le> (8092405580431359 / 2 ^ 47 :: rat)" "(8092405580431359 / 2 ^ 47 :: rat) < of_int k + 1 / 2"
    by blast
  from k(2) have "(of_int k :: rat) < 58" by simp
  then have "k < 58" by simp
  moreover from k(3) have "(56 :: rat) < of_int k" by simp
  then have "56 < k" by simp
  ultimately have "k = 57" by simp
  with k(1) have 2: "val (Math_round (js_mul (js_div (js_sub (Fin 63) (Fin 40)) (Fin 40)) (Fin 100))) = 57"
    by simp
  have 3: "performanceTrend (last (results (onTestEnd P0 (reporter0 (took [40])) test0 (result0 Passed 17)))) = Some (Faster (Fin 57))"
    using T40 [of "result0 Passed 17", unfolded cur, THEN conjunct2, THEN conjunct2, THEN conjunct1] f0 f1 f2
    by simp
  have 4: "performanceTrend (last (results (onTestEnd P0 (reporter0 (took [30])) test0 (result0 Passed 36)))) = Some StableTrend"
    using T30 [of "result0 Passed 36", unfolded cur, THEN conjunct2, THEN conjunct2, THEN conjunct2, THEN conjunct1] b1 b2
    by blast
  have 5: "performanceTrend (last (results (onTestEnd P0 (reporter0 (took [30])) test0 (result0 Passed 24)))) = Some StableTrend"
    using T30 [of "result0 Passed 24", unfolded cur, THEN conjunct2, THEN conjunct2, THEN conjunct2, THEN conjunct1] b3 b4
    by blast
  have n: "\<forall>e\<in>set (map (entry True) [28, 28, 29]). \<exists>n::nat. duration e = Fin (of_nat n)"
  proof -
    have "duration (entry True 28) = Fin (of_nat 28)" "duration (entry True 29) = Fin (of_nat 29)"
      by (simp_all add: entry_def)
    then show ?thesis by auto
  qed
  have m: "sum_list (map (\<lambda>e. val (duration e)) (map (entry True) [28, 28, 29])) = 85"
    by (simp add: entry_def)
  have lt: "sum_list (map (\<lambda>e. val (duration e)) (map (entry True) [28, 28, 29])) < 2 ^ 53"
    unfolding m by simp
  have len: "(of_nat (length (map (entry True) [28, 28, 29])) :: rat) = 3" by simp
  note A = T28 [of "result0 Passed 34", THEN conjunct2, THEN conjunct1, THEN mp, OF conjI [OF n lt],
                unfolded m len]
  have 6: "averageDuration (last (results (onTestEnd P0 (reporter0 (took [28, 28, 29])) test0 (result0 Passed 34)))) = Some (binary64 (85 / 3))"
    using T28 [of "result0 Passed 34", THEN conjunct1] unfolding A .
  from 1 2 3 4 5 6 show ?thesis by (intro conjI)
qed

section \<open>Properties of the history\<close>

lemma trunc_neg_nat: "1 \<le> n \<Longrightarrow> trunc (- of_nat n) = - int n"
proof -
  assume "1 \<le> n"
  have "\<lceil>- (of_nat n :: rat)\<rceil> = \<lceil>(of_int (- int n) :: rat)\<rceil>" by simp
  also have "\<dots> = - int n" by (rule ceiling_of_int)
  finally show ?thesis using \<open>1 \<le> n\<close> by (simp add: trunc_def)
qed

lemma slice_last_n:
  "1 \<le> n \<Longrightarrow> slice es (Fin (- of_nat n)) = drop (length es - n) es"
proof -
  assume n: "1 \<le> n"
  have "nat (max (int (length es) - int n) 0) = length es - n" by linarith
  with n show ?thesis by (simp add: slice_def trunc_neg_nat Let_def)
qed

lemma of_length_gt_nat:
  "js_gt (of_length es) (Fin (of_nat n)) = (n < length es)"
  by (simp add: js_gt_def of_length_def)

lemma step_same:
  assumes "maxHistoryRuns opts = Fin (of_nat n)" "1 \<le> n"
  shows "updateHistory_step opts ts h r (testId r) =
           Some (drop (length (lookup_entries h (testId r) @ [new_entry ts r]) - n)
                      (lookup_entries h (testId r) @ [new_entry ts r]))"
  using assms
  by (simp add: updateHistory_step_def Let_def of_length_gt_nat slice_last_n lookup_entries_def
        new_entry_def split: option.splits)

lemma step_other:
  "k \<noteq> testId r \<Longrightarrow> updateHistory_step opts ts h r k = h k"
  by (simp add: updateHistory_step_def Let_def split: option.splits)

text \<open>
  C3. For a positive integer \<open>maxHistoryRuns\<close>, appending the entry of one result to the
  sequence of its test and truncating keeps the most recent \<open>maxHistoryRuns\<close> entries of
  the extended sequence, in their order: entries are dropped from the front, the appended
  entry is the last one, and no other test is touched. With \<open>maxHistoryRuns = 2\<close>, three
  successive appends A, B, C to a test without entries leave exactly the entries of B and
  C, in this order.
\<close>

theorem append_keeps_most_recent:
  assumes "maxHistoryRuns opts = Fin (of_nat n)" and "1 \<le> n"
  shows "(let old = lookup_entries h (testId r);
              new = lookup_entries (updateHistory_step opts ts h r) (testId r)
          in new = drop (length (old @ [new_entry ts r]) - n) (old @ [new_entry ts r])
           \<and> length new = min n (length old + 1)
           \<and> last new = new_entry ts r
           \<and> (\<forall>k. k \<noteq> testId r \<longrightarrow> updateHistory_step opts ts h r k = h k))
       \<and> (n = 2 \<and> lookup_entries h (testId a) = [] \<and> testId b = testId a \<and> testId c = testId a \<longrightarrow>
            lookup_entries
              (updateHistory_step opts tc (updateHistory_step opts tb (updateHistory_step opts ta h a) b) c)
              (testId a) = [new_entry tb b, new_entry tc c])"
proof -
  note s = step_same [OF assms]
  have 1: "lookup_entries (updateHistory_step opts ts h r) (testId r) =
        drop (length (lookup_entries h (testId r) @ [new_entry ts r]) - n) (lookup_entries h (testId r) @ [new_entry ts r])"
    for ts h r
    by (simp add: lookup_entries_def[of "updateHistory_step opts ts h r"] s)
  have 2: "last (drop (length (old @ [e]) - n) (old @ [e])) = e" for old :: "TestHistoryEntry list" and e
    using assms(2) by (simp add: last_drop)
  have 3: "n = 2 \<Longrightarrow> lookup_entries h (testId a) = [] \<Longrightarrow> testId b = testId a \<Longrightarrow> testId c = testId a \<Longrightarrow>
      lookup_entries
              (updateHistory_step opts tc (updateHistory_step opts tb (updateHistory_step opts ta h a) b) c)
              (testId a) = [new_entry tb b, new_entry tc c]"
    using 1[of tc "updateHistory_step opts tb (updateHistory_step opts ta h a) b" c]
          1[of tb "updateHistory_step opts ta h a" b] 1[of ta h a]
    by simp
  show ?thesis
    unfolding Let_def 1 using 2 3 assms(2) by (auto simp: step_other)
qed


lemma max2: "maxHistoryRuns (options (reporter2 h)) = Fin (of_nat 2)"
  by (simp add: reporter2_def constructor_def max2_options_def no_options_def or_default_def)

theorem append_keeps_most_recent_witness:
  "lookup_entries
     (updateHistory_step (options (reporter2 Map.empty)) ''t3''
        (updateHistory_step (options (reporter2 Map.empty)) ''t2''
           (updateHistory_step (options (reporter2 Map.empty)) ''t1'' Map.empty (data0 Passed 1))
           (data0 Failed 2))
        (data0 Passed 3))
     ''a.spec.ts::logs in''
   = [\<lparr> passed = False, duration = Fin 2, timestamp = ''t2'' \<rparr>,
      \<lparr> passed = True, duration = Fin 3, timestamp = ''t3'' \<rparr>]"
proof -
  have two: "(1::nat) \<le> 2" by simp
  have e: "lookup_entries Map.empty (testId (data0 Passed 1)) = []"
    by (simp add: lookup_entries_def)
  have ids: "testId (data0 Failed 2) = testId (data0 Passed 1)" "testId (data0 Passed 3) = testId (data0 Passed 1)"
    "testId (data0 Passed 1) = ''a.spec.ts::logs in''"
    by (simp_all add: data0_def)
  from append_keeps_most_recent [OF max2 two, THEN conjunct2, rule_format, OF conjI, OF refl conjI, OF e conjI, OF ids(1) ids(2)]
  show ?thesis
    by (simp add: ids(3)) (simp add: new_entry_def data0_def)
qed

lemma fold_step_bound:
  assumes "maxHistoryRuns opts = Fin (of_nat n)" "1 \<le> n"
  shows "(k \<in> testId ` set rs \<longrightarrow>
            length (lookup_entries (foldl (updateHistory_step opts ts) h rs) k) \<le> n)
       \<and> (k \<notin> testId ` set rs \<longrightarrow> foldl (updateHistory_step opts ts) h rs k = h k)"
proof (induction rs rule: rev_induct)
  case Nil
  then show ?case by simp
next
  case (snoc r rs)
  show ?case
  proof (cases "k = testId r")
    case True
    then show ?thesis
      by (simp add: lookup_entries_def [of "updateHistory_step opts ts (foldl (updateHistory_step opts ts) h rs) r"]
            step_same [OF assms])
  next
    case False
    then show ?thesis using snoc
      by (simp add: step_other lookup_entries_def)
  qed
qed

text \<open>
  C4, as amended. For a positive integer \<open>maxHistoryRuns\<close>, after the history update at
  run end the sequence of every test that has a result in the current run holds at most
  \<open>maxHistoryRuns\<close> entries, whatever was loaded; the sequence of a test without a result
  in the current run is left as it was loaded. So every sequence is within the bound after
  the update when every loaded sequence was.
\<close>

theorem history_bound_after_update:
  assumes "maxHistoryRuns (options this) = Fin (of_nat n)" and "1 \<le> n"
    and "updateHistory P this w = Inr (this', w')"
  shows "(\<forall>k. k \<in> testId ` set (results this) \<longrightarrow> length (lookup_entries (history this') k) \<le> n)
       \<and> (\<forall>k. k \<notin> testId ` set (results this) \<longrightarrow> history this' k = history this k)
       \<and> ((\<forall>k es. history this k = Some es \<longrightarrow> length es \<le> n) \<longrightarrow>
            (\<forall>k es. history this' k = Some es \<longrightarrow> length es \<le> n))"
proof -
  let ?H = "foldl (updateHistory_step (options this) (toISOString_now P)) (history this) (results this)"
  from assms(3) have h': "history this' = ?H"
    by (auto simp: updateHistory_def Let_def split: sum.splits)
  note b = fold_step_bound [OF assms(1,2), of _ "results this" "toISOString_now P" "history this"]
  have 1: "\<forall>k. k \<in> testId ` set (results this) \<longrightarrow> length (lookup_entries ?H k) \<le> n"
    using b by blast
  have 2: "\<forall>k. k \<notin> testId ` set (results this) \<longrightarrow> ?H k = history this k"
    using b by blast
  have 3: "(\<forall>k es. history this k = Some es \<longrightarrow> length es \<le> n) \<longrightarrow>
           (\<forall>k es. ?H k = Some es \<longrightarrow> length es \<le> n)"
  proof (intro impI allI)
    fix k es
    assume old: "\<forall>k es. history this k = Some es \<longrightarrow> length es \<le> n" and k: "?H k = Some es"
    show "length es \<le> n"
    proof (cases "k \<in> testId ` set (results this)")
      case True
      with 1 have "length (lookup_entries ?H k) \<le> n" by blast
      with k show ?thesis by (simp add: lookup_entries_def)
    next
      case False
      with 2 k old show ?thesis by simp
    qed
  qed
  show ?thesis unfolding h' using 1 2 3 by blast
qed

lemma updateHistory_writable:
  assumes "writable w (path_resolve P (outputDir this) (historyFile (options this)))"
  shows "updateHistory P this w =
           Inr (this \<lparr> history := foldl (updateHistory_step (options this) (toISOString_now P)) (history this) (results this) \<rparr>,
                w \<lparr> files := (files w)(path_resolve P (outputDir this) (historyFile (options this)) \<mapsto>
                          Regular (JSON_stringify P (foldl (updateHistory_step (options this) (toISOString_now P)) (history this) (results this)))),
                    writes := writes w @ [(path_resolve P (outputDir this) (historyFile (options this)),
                          JSON_stringify P (foldl (updateHistory_step (options this) (toISOString_now P)) (history this) (results this)))] \<rparr>)"
  using assms by (simp add: updateHistory_def writeFileSync_def Let_def)

lemma max2_ran: "maxHistoryRuns (options (ran2 h rs)) = Fin (of_nat 2)"
  by (simp add: ran2_def max2)

theorem history_bound_after_update_witness:
  "length (lookup_entries (history (fst (projr (updateHistory P0 (ran2 three_old [data0 Passed 1, data0 Failed 2, data0 Passed 3]) w0)))) ''a.spec.ts::logs in'') \<le> 2
   \<and> history (fst (projr (updateHistory P0 (ran2 three_old [data0 Passed 1, data0 Failed 2, data0 Passed 3]) w0))) ''old.spec.ts::gone''
       = Some [entry True 1, entry True 2, entry True 3]
   \<and> length (lookup_entries (history (fst (projr (updateHistory P0 (ran2 two_recent [data0 Passed 3]) w0)))) ''a.spec.ts::logs in'') \<le> 2"
proof -
  have two: "(1::nat) \<le> 2" by simp
  have wr: "writable w0 p" for p by (simp add: w0_def)
  have u: "updateHistory P0 (ran2 h rs) w0 =
             Inr (fst (projr (updateHistory P0 (ran2 h rs) w0)), snd (projr (updateHistory P0 (ran2 h rs) w0)))" for h rs
    by (simp add: updateHistory_writable [OF wr])
  note a = history_bound_after_update [OF max2_ran two u, of three_old "[data0 Passed 1, data0 Failed 2, data0 Passed 3]"]
  note b = history_bound_after_update [OF max2_ran two u, of two_recent "[data0 Passed 3]"]
  have in_run: "''a.spec.ts::logs in'' \<in> testId ` set (results (ran2 three_old [data0 Passed 1, data0 Failed 2, data0 Passed 3]))"
    by (simp add: ran2_def data0_def)
  have not_in_run: "''old.spec.ts::gone'' \<notin> testId ` set (results (ran2 three_old [data0 Passed 1, data0 Failed 2, data0 Passed 3]))"
    by (simp add: ran2_def data0_def)
  have old: "history (ran2 three_old rs) ''old.spec.ts::gone'' = Some [entry True 1, entry True 2, entry True 3]" for rs
    by (simp add: ran2_def reporter2_def three_old_def)
  have within: "\<forall>k es. history (ran2 two_recent [data0 Passed 3]) k = Some es \<longrightarrow> length es \<le> 2"
    by (simp add: ran2_def reporter2_def two_recent_def)
  note 1 = a [THEN conjunct1, rule_format, OF in_run]
  note 2 = a [THEN conjunct2, THEN conjunct1, rule_format, OF not_in_run, unfolded old]
  note all = b [THEN conjunct2, THEN conjunct2, THEN mp, OF within]
  have 3: "length (lookup_entries (history (fst (projr (updateHistory P0 (ran2 two_recent [data0 Passed 3]) w0)))) k) \<le> 2" for k
    using all
    by (cases "history (fst (projr (updateHistory P0 (ran2 two_recent [data0 Passed 3]) w0))) k")
       (simp_all add: lookup_entries_def)
  show ?thesis
    by (intro conjI) (rule 1, rule 2, rule 3)
qed


text \<open>
  C4 as stated fails: with \<open>maxHistoryRuns = 2\<close>, a history file that holds three entries
  for a test that is not part of the run, and a run of one other test, the history after
  the run still holds the three entries.
\<close>

theorem history_bound_counterexample:
  "run P1 max2_options ''/r'' [(test0, result0 Passed 500)] w_seeded \<noteq> None
   \<and> \<not> isl (the (run P1 max2_options ''/r'' [(test0, result0 Passed 500)] w_seeded))
   \<and> maxHistoryRuns (options (fst (projr (the (run P1 max2_options ''/r'' [(test0, result0 Passed 500)] w_seeded))))) = Fin 2
   \<and> length (lookup_entries (history (fst (projr (the (run P1 max2_options ''/r'' [(test0, result0 Passed 500)] w_seeded))))) ''old.spec.ts::gone'') = 3
   \<and> \<not> js_le (of_length (lookup_entries (history (fst (projr (the (run P1 max2_options ''/r'' [(test0, result0 Passed 500)] w_seeded))))) ''old.spec.ts::gone''))
               (maxHistoryRuns (options (fst (projr (the (run P1 max2_options ''/r'' [(test0, result0 Passed 500)] w_seeded))))))"
  by code_simp

section \<open>Properties of the test key\<close>

lemma split_at_first:
  "c \<notin> set xs \<Longrightarrow> c \<notin> set xs' \<Longrightarrow> xs @ c # ys = xs' @ c # ys' \<Longrightarrow> xs = xs' \<and> ys = ys'"
proof (induction xs arbitrary: xs')
  case Nil
  then show ?case by (cases xs') auto
next
  case (Cons x xs)
  then show ?case by (cases xs') auto
qed

lemma join_inj_left:
  assumes "CHR '':'' \<notin> set f" "CHR '':'' \<notin> set f'" "f @ ''::'' @ t = f' @ ''::'' @ t'"
  shows "f = f' \<and> t = t'"
  using split_at_first [OF assms(1,2), of "CHR '':'' # t" "CHR '':'' # t'"] assms(3) by simp

lemma join_inj_right:
  assumes "CHR '':'' \<notin> set t" "CHR '':'' \<notin> set t'" "f @ ''::'' @ t = f' @ ''::'' @ t'"
  shows "f = f' \<and> t = t'"
proof -
  from assms(3) have "rev (f @ ''::'' @ t) = rev (f' @ ''::'' @ t')" by simp
  then have "rev t @ CHR '':'' # (CHR '':'' # rev f) = rev t' @ CHR '':'' # (CHR '':'' # rev f')"
    by simp
  from split_at_first [OF _ _ this] assms(1,2) show ?thesis by simp
qed

text \<open>
  C7, as amended. The key of a test is its relative file path, the separator \<open>::\<close> and
  its title: a function of the project root, the file and the title alone, so the key
  recorded for a result does not depend on the result (its retry count, status or
  duration), on the results recorded before, or on the history. Tests with the same
  relative file path and title have the same key. Tests with the same key have the same
  relative file path and title when no colon occurs in the two relative file paths, or
  none in the two titles.
\<close>

theorem test_key_from_file_and_title:
  "(let f = path_relative P (outputDir this) (tc_location_file test);
        f' = path_relative P (outputDir this') (tc_location_file test')
    in getTestId P this test = f @ ''::'' @ tc_title test
     \<and> testId (last (results (onTestEnd P this test result))) = f @ ''::'' @ tc_title test
     \<and> (f = f' \<and> tc_title test = tc_title test' \<longrightarrow> getTestId P this test = getTestId P this' test')
     \<and> ((CHR '':'' \<notin> set f \<and> CHR '':'' \<notin> set f')
          \<or> (CHR '':'' \<notin> set (tc_title test) \<and> CHR '':'' \<notin> set (tc_title test')) \<longrightarrow>
         (getTestId P this test = getTestId P this' test') = (f = f' \<and> tc_title test = tc_title test')))"
proof -
  define f where "f = path_relative P (outputDir this) (tc_location_file test)"
  define f' where "f' = path_relative P (outputDir this') (tc_location_file test')"
  have k: "getTestId P this test = f @ ''::'' @ tc_title test"
    and k': "getTestId P this' test' = f' @ ''::'' @ tc_title test'"
    by (simp_all add: getTestId_def f_def f'_def)
  have d: "testId (last (results (onTestEnd P this test result))) = getTestId P this test"
    by (simp add: onTestEnd_def Let_def split: list.splits)
  have inj: "(getTestId P this test = getTestId P this' test') = (f = f' \<and> tc_title test = tc_title test')"
    if "(CHR '':'' \<notin> set f \<and> CHR '':'' \<notin> set f')
          \<or> (CHR '':'' \<notin> set (tc_title test) \<and> CHR '':'' \<notin> set (tc_title test'))"
  proof
    assume "getTestId P this test = getTestId P this' test'"
    then have e: "f @ ''::'' @ tc_title test = f' @ ''::'' @ tc_title test'"
      by (simp only: k k')
    from that show "f = f' \<and> tc_title test = tc_title test'"
    proof
      assume "CHR '':'' \<notin> set f \<and> CHR '':'' \<notin> set f'"
      then show ?thesis using join_inj_left [OF _ _ e] by blast
    next
      assume "CHR '':'' \<notin> set (tc_title test) \<and> CHR '':'' \<notin> set (tc_title test')"
      then show ?thesis using join_inj_right [OF _ _ e] by blast
    qed
  next
    assume "f = f' \<and> tc_title test = tc_title test'"
    then show "getTestId P this test = getTestId P this' test'"
      by (simp only: k k')
  qed
  have same: "f = f' \<and> tc_title test = tc_title test' \<longrightarrow> getTestId P this test = getTestId P this' test'"
    by (simp add: k k')
  show ?thesis
    unfolding Let_def f_def [symmetric] f'_def [symmetric]
    using k d same inj by simp
qed

text \<open>
  C7 as stated fails: the test \<open>b.spec.ts::works\<close> of the file \<open>a.spec.ts\<close> and the test
  \<open>works\<close> of the file \<open>a.spec.ts::b.spec.ts\<close> are different tests with the same key.
\<close>

theorem test_key_counterexample:
  "getTestId P0 (reporter0 Map.empty) testA = getTestId P0 (reporter0 Map.empty) testB
   \<and> path_relative P0 (outputDir (reporter0 Map.empty)) (tc_location_file testA)
       \<noteq> path_relative P0 (outputDir (reporter0 Map.empty)) (tc_location_file testB)
   \<and> tc_title testA \<noteq> tc_title testB"
  by code_simp

theorem test_key_from_file_and_title_witness:
  "getTestId P0 (reporter0 Map.empty) test0 \<noteq> getTestId P0 (reporter0 Map.empty) testB
   \<and> getTestId P0 (reporter0 Map.empty) test0 = getTestId P0 (reporter2 three_old) test0
   \<and> testId (last (results (onTestEnd P0 (reporter0 Map.empty) test0 (result0 Failed 7)))) = ''a.spec.ts::logs in''"
proof -
  note T = test_key_from_file_and_title [unfolded Let_def]
  have c: "(CHR '':'' \<notin> set (path_relative P0 (outputDir (reporter0 Map.empty)) (tc_location_file test0))
            \<and> CHR '':'' \<notin> set (path_relative P0 (outputDir (reporter0 Map.empty)) (tc_location_file testB)))
          \<or> (CHR '':'' \<notin> set (tc_title test0) \<and> CHR '':'' \<notin> set (tc_title testB))"
    by (simp add: test0_def testB_def)
  have t: "tc_title test0 \<noteq> tc_title testB"
    by (simp add: test0_def testB_def)
  have s: "path_relative P0 (outputDir (reporter0 Map.empty)) (tc_location_file test0)
             = path_relative P0 (outputDir (reporter2 three_old)) (tc_location_file test0)
           \<and> tc_title test0 = tc_title test0"
    by (simp add: reporter0_def reporter2_def)
  have f: "path_relative P0 (outputDir (reporter0 Map.empty)) (tc_location_file test0) @ ''::'' @ tc_title test0
             = ''a.spec.ts::logs in''"
    by (simp add: P0_def rel0_def reporter0_def test0_def)
  from T [where P = P0 and this = "reporter0 Map.empty" and test = test0 and this' = "reporter0 Map.empty" and test' = testB, THEN conjunct2, THEN conjunct2, THEN conjunct2, THEN mp, OF c] t
  have 1: "getTestId P0 (reporter0 Map.empty) test0 \<noteq> getTestId P0 (reporter0 Map.empty) testB"
    by blast
  from T [where P = P0 and this = "reporter0 Map.empty" and test = test0 and this' = "reporter2 three_old" and test' = test0, THEN conjunct2, THEN conjunct2, THEN conjunct1, THEN mp, OF s]
  have 2: "getTestId P0 (reporter0 Map.empty) test0 = getTestId P0 (reporter2 three_old) test0" .
  from T [where P = P0 and this = "reporter0 Map.empty" and test = test0 and result = "result0 Failed 7", THEN conjunct2, THEN conjunct1]
  have 3: "testId (last (results (onTestEnd P0 (reporter0 Map.empty) test0 (result0 Failed 7)))) = ''a.spec.ts::logs in''"
    by (simp only: f)
  from 1 2 3 show ?thesis by (intro conjI)
qed

section \<open>Properties of loading\<close>

lemma loadHistory_cases:
  "loadHistory P this w =
     (case files w (path_resolve P (outputDir this) (historyFile (options this))) of
        None \<Rightarrow> Typed this
      | Some Unreadable \<Rightarrow> Typed (this \<lparr> history := Map.empty \<rparr>)
      | Some (Regular text) \<Rightarrow>
          (case JSON_parse P text of
             None \<Rightarrow> Typed (this \<lparr> history := Map.empty \<rparr>)
           | Some v \<Rightarrow>
               (case as_TestHistory v of
                  Some h \<Rightarrow> Typed (this \<lparr> history := h \<rparr>)
                | None \<Rightarrow> Untyped v)))"
  by (simp add: loadHistory_def existsSync_def readFileSync_def Let_def
        split: option.splits fs_entry.splits)

lemma not_object_untyped: "(\<forall>ms. v \<noteq> JObj ms) \<Longrightarrow> as_TestHistory v = None"
  by (cases v) simp_all

text \<open>
  C6 as stated fails. A history file that holds the text \<open>null\<close> is read and
  parsed without an error, and \<open>loadHistory\<close> stores the parsed value as the history: the
  history is \<open>null\<close>, not the empty mapping. The first test end of the run then throws a
  \<open>TypeError\<close>.
\<close>

theorem load_counterexample:
  "files w_null ''/r/test-history.json'' = Some (Regular ''null'')
   \<and> JSON_parse P_null ''null'' = Some JNull
   \<and> onBegin P_null ''/r'' (constructor no_options) w_null = Untyped JNull
   \<and> run P_null no_options ''/r'' [(test0, result0 Passed 500)] w_null = Some (Inl TypeError)"
proof -
  have 1: "files w_null ''/r/test-history.json'' = Some (Regular ''null'')"
    by (simp add: w_null_def w0_def)
  have 2: "JSON_parse P_null ''null'' = Some JNull"
    by (simp add: P_null_def)
  have 3: "onBegin P_null ''/r'' (constructor no_options) w_null = Untyped JNull"
    by (simp add: onBegin_def loadHistory_cases constructor_def no_options_def or_default_def
          P_null_def P0_def w_null_def w0_def)
  have 4: "run P_null no_options ''/r'' [(test0, result0 Passed 500)] w_null = Some (Inl TypeError)"
    by (simp add: run_def 3)
  from 1 2 3 4 show ?thesis by (intro conjI)
qed

text \<open>
  C6, as amended. \<open>loadHistory\<close> throws nothing, whatever the file holds. When
  the history file is missing, the history stays the empty mapping of the constructor.
  When the file cannot be read, or \<open>JSON.parse\<close> throws on its content, the error is
  caught and the history is the empty mapping. When the content parses, the parsed value
  is the history, unchecked: a mapping from keys to sequences of entries is the history
  of the run; any other value, such as \<open>null\<close>, a number, a string or an array, is
  stored as it is. The other fields of the reporter are as constructed, and a run that
  has loaded a history mapping goes on to its end.
\<close>

theorem load_absorbs_missing_and_unparsable:
  "(let this = constructor opts;
        begun = this \<lparr> outputDir := rootDir \<rparr>;
        historyPath = path_resolve P rootDir (historyFile (options this))
    in (files w historyPath = None \<longrightarrow>
          onBegin P rootDir this w = Typed begun \<and> history begun = Map.empty)
     \<and> (files w historyPath = Some Unreadable \<longrightarrow>
          onBegin P rootDir this w = Typed (begun \<lparr> history := Map.empty \<rparr>))
     \<and> (\<forall>text. files w historyPath = Some (Regular text) \<longrightarrow>
          (JSON_parse P text = None \<longrightarrow>
             onBegin P rootDir this w = Typed (begun \<lparr> history := Map.empty \<rparr>))
        \<and> (\<forall>v. JSON_parse P text = Some v \<longrightarrow>
             (\<forall>h. as_TestHistory v = Some h \<longrightarrow>
                onBegin P rootDir this w = Typed (begun \<lparr> history := h \<rparr>))
           \<and> (as_TestHistory v = None \<longrightarrow> onBegin P rootDir this w = Untyped v)
           \<and> ((\<forall>ms. v \<noteq> JObj ms) \<longrightarrow> onBegin P rootDir this w = Untyped v)))
     \<and> results begun = [] \<and> options begun = options this
     \<and> (\<forall>loaded events. onBegin P rootDir this w = Typed loaded \<longrightarrow>
          run P opts rootDir events w = Some (onEnd P (collect P loaded events) w)))
   \<and> (let historyPath = path_resolve P (outputDir that) (historyFile (options that))
      in (files w historyPath = None \<longrightarrow> loadHistory P that w = Typed that)
       \<and> (files w historyPath = Some Unreadable \<longrightarrow>
            loadHistory P that w = Typed (that \<lparr> history := Map.empty \<rparr>))
       \<and> (\<forall>text. files w historyPath = Some (Regular text) \<longrightarrow>
            loadHistory P that w =
              (case JSON_parse P text of
                 None \<Rightarrow> Typed (that \<lparr> history := Map.empty \<rparr>)
               | Some v \<Rightarrow>
                   (case as_TestHistory v of
                      Some h \<Rightarrow> Typed (that \<lparr> history := h \<rparr>)
                    | None \<Rightarrow> Untyped v))))"
proof -
  define this where "this = constructor opts"
  define begun where "begun = this \<lparr> outputDir := rootDir \<rparr>"
  define historyPath where "historyPath = path_resolve P rootDir (historyFile (options this))"
  have b: "onBegin P rootDir this w = loadHistory P begun w"
    by (simp add: onBegin_def begun_def)
  have hp: "path_resolve P (outputDir begun) (historyFile (options begun)) = historyPath"
    by (simp add: begun_def historyPath_def)
  note c = loadHistory_cases [of P begun w, unfolded hp, folded b]
  have 1: "files w historyPath = None \<longrightarrow>
             onBegin P rootDir this w = Typed begun \<and> history begun = Map.empty"
    by (simp add: c) (simp add: begun_def this_def constructor_def)
  have 2: "files w historyPath = Some Unreadable \<longrightarrow>
             onBegin P rootDir this w = Typed (begun \<lparr> history := Map.empty \<rparr>)"
    by (simp add: c)
  have 3: "\<forall>text. files w historyPath = Some (Regular text) \<longrightarrow>
          (JSON_parse P text = None \<longrightarrow>
             onBegin P rootDir this w = Typed (begun \<lparr> history := Map.empty \<rparr>))
        \<and> (\<forall>v. JSON_parse P text = Some v \<longrightarrow>
             (\<forall>h. as_TestHistory v = Some h \<longrightarrow>
                onBegin P rootDir this w = Typed (begun \<lparr> history := h \<rparr>))
           \<and> (as_TestHistory v = None \<longrightarrow> onBegin P rootDir this w = Untyped v)
           \<and> ((\<forall>ms. v \<noteq> JObj ms) \<longrightarrow> onBegin P rootDir this w = Untyped v))"
    using not_object_untyped by (simp add: c)
  have 4: "results begun = []" "options begun = options this"
    by (simp_all add: begun_def this_def constructor_def)
  have 5: "\<forall>loaded events. onBegin P rootDir this w = Typed loaded \<longrightarrow>
          run P opts rootDir events w = Some (onEnd P (collect P loaded events) w)"
    by (simp add: run_def this_def)
  have 6: "files w (path_resolve P (outputDir that) (historyFile (options that))) = None \<longrightarrow>
             loadHistory P that w = Typed that"
    and 7: "files w (path_resolve P (outputDir that) (historyFile (options that))) = Some Unreadable \<longrightarrow>
             loadHistory P that w = Typed (that \<lparr> history := Map.empty \<rparr>)"
    and 8: "\<forall>text. files w (path_resolve P (outputDir that) (historyFile (options that))) = Some (Regular text) \<longrightarrow>
            loadHistory P that w =
              (case JSON_parse P text of
                 None \<Rightarrow> Typed (that \<lparr> history := Map.empty \<rparr>)
               | Some v \<Rightarrow>
                   (case as_TestHistory v of
                      Some h \<Rightarrow> Typed (that \<lparr> history := h \<rparr>)
                    | None \<Rightarrow> Untyped v))"
    by (simp_all add: loadHistory_cases)
  from 1 2 3 4 5 6 7 8 show ?thesis
    unfolding Let_def this_def [symmetric] begun_def [symmetric] historyPath_def [symmetric]
    by (intro conjI)
qed

lemma seed_typed:
  "as_TestHistory (JObj [(''old.spec.ts::gone'',
                          JArr [json_entry True 1, json_entry True 2, json_entry True 3])])
   = Some three_old"
  by (simp add: json_entry_def member_def entry_def three_old_def)

theorem load_absorbs_missing_and_unparsable_witness:
  "onBegin P1 ''/r'' (constructor no_options) w0 = Typed ((constructor no_options) \<lparr> outputDir := ''/r'' \<rparr>)
   \<and> history ((constructor no_options) \<lparr> outputDir := ''/r'' \<rparr>) = Map.empty
   \<and> onBegin P1 ''/r'' (constructor no_options) w_cut
       = Typed ((constructor no_options) \<lparr> outputDir := ''/r'', history := Map.empty \<rparr>)
   \<and> onBegin P1 ''/r'' (constructor no_options) w_seeded
       = Typed ((constructor no_options) \<lparr> outputDir := ''/r'', history := three_old \<rparr>)
   \<and> onBegin P_null ''/r'' (constructor no_options) w_null = Untyped JNull"
proof -
  have p: "path_resolve P1 ''/r'' (historyFile (options (constructor no_options))) = ''/r/test-history.json''"
    "path_resolve P_null ''/r'' (historyFile (options (constructor no_options))) = ''/r/test-history.json''"
    by (simp_all add: P1_def P_null_def P0_def constructor_def no_options_def or_default_def)
  have m: "files w0 ''/r/test-history.json'' = None"
    by (simp add: w0_def)
  have c: "files w_cut ''/r/test-history.json'' = Some (Regular ''{ \"a.spec.ts::logs in\": ['')"
    and cn: "JSON_parse P1 ''{ \"a.spec.ts::logs in\": ['' = None"
    by (simp_all add: w_cut_def w0_def P1_def)
  have s: "files w_seeded ''/r/test-history.json'' = Some (Regular ''seed'')"
    and sp: "JSON_parse P1 ''seed'' = Some (JObj [(''old.spec.ts::gone'',
                          JArr [json_entry True 1, json_entry True 2, json_entry True 3])])"
    by (simp_all add: w_seeded_def w0_def P1_def)
  have n: "files w_null ''/r/test-history.json'' = Some (Regular ''null'')"
    and np: "JSON_parse P_null ''null'' = Some JNull"
    and nu: "as_TestHistory JNull = None"
    by (simp_all add: w_null_def w0_def P_null_def)
  note Ta = load_absorbs_missing_and_unparsable
              [where P = P1 and rootDir = "''/r''" and opts = no_options and w = w0,
               unfolded Let_def p, THEN conjunct1]
  note Tb = load_absorbs_missing_and_unparsable
              [where P = P1 and rootDir = "''/r''" and opts = no_options and w = w_cut,
               unfolded Let_def p, THEN conjunct1]
  note Tc = load_absorbs_missing_and_unparsable
              [where P = P1 and rootDir = "''/r''" and opts = no_options and w = w_seeded,
               unfolded Let_def p, THEN conjunct1]
  note Tn = load_absorbs_missing_and_unparsable
              [where P = P_null and rootDir = "''/r''" and opts = no_options and w = w_null,
               unfolded Let_def p, THEN conjunct1]
  from Ta [THEN conjunct1, THEN mp, OF m]
  have 1: "onBegin P1 ''/r'' (constructor no_options) w0 = Typed ((constructor no_options) \<lparr> outputDir := ''/r'' \<rparr>)"
    and 2: "history ((constructor no_options) \<lparr> outputDir := ''/r'' \<rparr>) = Map.empty"
    by (rule conjunct1, rule conjunct2)
  from Tb [THEN conjunct2, THEN conjunct2, THEN conjunct1, rule_format, OF c,
           THEN conjunct1, THEN mp, OF cn]
  have 3: "onBegin P1 ''/r'' (constructor no_options) w_cut
       = Typed ((constructor no_options) \<lparr> outputDir := ''/r'', history := Map.empty \<rparr>)" .
  from Tc [THEN conjunct2, THEN conjunct2, THEN conjunct1, rule_format, OF s,
           THEN conjunct2, rule_format, OF sp, THEN conjunct1, rule_format, OF seed_typed]
  have 4: "onBegin P1 ''/r'' (constructor no_options) w_seeded
       = Typed ((constructor no_options) \<lparr> outputDir := ''/r'', history := three_old \<rparr>)" .
  from Tn [THEN conjunct2, THEN conjunct2, THEN conjunct1, rule_format, OF n,
           THEN conjunct2, rule_format, OF np, THEN conjunct2, THEN conjunct1, THEN mp, OF nu]
  have 5: "onBegin P_null ''/r'' (constructor no_options) w_null = Untyped JNull" .
  from 1 2 3 4 5 show ?thesis by (intro conjI)
qed

section \<open>Properties of a run\<close>

subsection \<open>Collecting\<close>

lemma onTestEnd_frame:
  "history (onTestEnd P s t r) = history s"
  "options (onTestEnd P s t r) = options s"
  "outputDir (onTestEnd P s t r) = outputDir s"
  "results (onTestEnd P s t r) = results s @ [last (results (onTestEnd P s t r))]"
  by (simp_all add: onTestEnd_def Let_def)

lemma onTestEnd_data:
  assumes "history s = history s'" "options s = options s'" "outputDir s = outputDir s'"
  shows "last (results (onTestEnd P s t r)) = last (results (onTestEnd P s' t r))"
  using assms by (simp add: onTestEnd_def getTestId_def getPerformanceTrend_def Let_def)

lemma collect_frame:
  "history (collect P s events) = history s
   \<and> options (collect P s events) = options s
   \<and> outputDir (collect P s events) = outputDir s
   \<and> results (collect P s events) =
       results s @ map (\<lambda>(test, result). last (results (onTestEnd P s test result))) events"
proof (induction events arbitrary: s)
  case Nil
  then show ?case by (simp add: collect_def)
next
  case (Cons e events)
  obtain t r where e: "e = (t, r)" by (cases e)
  have c: "collect P s (e # events) = collect P (onTestEnd P s t r) events"
    by (simp add: collect_def e)
  have d: "last (results (onTestEnd P (onTestEnd P s t r) t' r')) = last (results (onTestEnd P s t' r'))" for t' r'
    by (rule onTestEnd_data) (simp_all add: onTestEnd_frame)
  show ?case
    unfolding c using Cons.IH [of "onTestEnd P s t r"] onTestEnd_frame(4) [of P s t r]
    by (simp add: onTestEnd_frame(1-3) d e)
qed


subsection \<open>Suggestions\<close>

lemma callProvider_eq:
  "callProvider prov P w prompt =
     (case fetch P (length (requests w)) prov prompt of
        Rejected \<Rightarrow> Inl NetworkError
      | NotOk st \<Rightarrow> Inl (ApiError prov st)
      | BadBody \<Rightarrow> Inl TypeError
      | Body text \<Rightarrow> Inr (or_else text ''No suggestion available''),
      w \<lparr> requests := requests w @ [(prov, prompt)] \<rparr>)"
  by (simp add: callProvider_def Let_def)

lemma suggestion_step_frame:
  "files (snd (suggestion_step P t w)) = files w"
  "writes (snd (suggestion_step P t w)) = writes w"
  "writable (snd (suggestion_step P t w)) = writable w"
  "(fst (suggestion_step P t w)) \<lparr> aiSuggestion := None \<rparr> = t \<lparr> aiSuggestion := None \<rparr>"
  by (simp_all add: suggestion_step_def try_suggestion_def callAnthropic_def callOpenAI_def
        callProvider_eq Let_def split: http_outcome.splits)

lemma suggestion_step_keyed:
  assumes "truthy (ANTHROPIC_API_KEY P) \<or> truthy (OPENAI_API_KEY P)"
  shows "suggestion_step P t w =
     (case fetch P (length (requests w)) (selected_provider P) (buildAiPrompt t) of
        Body text \<Rightarrow>
          (t \<lparr> aiSuggestion := Some (or_else text ''No suggestion available'') \<rparr>,
           w \<lparr> requests := requests w @ [(selected_provider P, buildAiPrompt t)] \<rparr>)
      | Rejected \<Rightarrow>
          (t, w \<lparr> requests := requests w @ [(selected_provider P, buildAiPrompt t)],
                  console := console w @ [SuggestionFailed (title t) NetworkError] \<rparr>)
      | NotOk st \<Rightarrow>
          (t, w \<lparr> requests := requests w @ [(selected_provider P, buildAiPrompt t)],
                  console := console w @ [SuggestionFailed (title t) (ApiError (selected_provider P) st)] \<rparr>)
      | BadBody \<Rightarrow>
          (t, w \<lparr> requests := requests w @ [(selected_provider P, buildAiPrompt t)],
                  console := console w @ [SuggestionFailed (title t) TypeError] \<rparr>))"
  using assms
  by (auto simp add: suggestion_step_def try_suggestion_def callAnthropic_def callOpenAI_def
        callProvider_eq selected_provider_def Let_def split: http_outcome.splits)

lemma suggestion_loop_frame:
  "files (snd (suggestion_loop P ts w)) = files w
   \<and> writes (snd (suggestion_loop P ts w)) = writes w
   \<and> writable (snd (suggestion_loop P ts w)) = writable w
   \<and> map (\<lambda>r. r \<lparr> aiSuggestion := None \<rparr>) (fst (suggestion_loop P ts w))
       = map (\<lambda>r. r \<lparr> aiSuggestion := None \<rparr>) ts"
proof (induction ts arbitrary: w)
  case Nil
  then show ?case by simp
next
  case (Cons t ts)
  obtain t' wa where s: "suggestion_step P t w = (t', wa)" by (cases "suggestion_step P t w")
  obtain ts' w2 where l: "suggestion_loop P ts wa = (ts', w2)" by (cases "suggestion_loop P ts wa")
  from suggestion_step_frame [of P t w] s
  have f: "files wa = files w" "writes wa = writes w" "writable wa = writable w"
    "t' \<lparr> aiSuggestion := None \<rparr> = t \<lparr> aiSuggestion := None \<rparr>"
    by simp_all
  from Cons.IH [of wa] l f show ?case
    by (simp add: s)
qed


lemma suggestion_step_keyed_facts:
  assumes "truthy (ANTHROPIC_API_KEY P) \<or> truthy (OPENAI_API_KEY P)"
    and "suggestion_step P t w = (t', wa)"
  shows "requests wa = requests w @ [(selected_provider P, buildAiPrompt t)]"
    and "\<exists>extra. console wa = console w @ extra"
    and "fetch P (length (requests w)) (selected_provider P) (buildAiPrompt t) = Body text \<Longrightarrow>
           t' = t \<lparr> aiSuggestion := Some (or_else text ''No suggestion available'') \<rparr>"
    and "\<forall>text. fetch P (length (requests w)) (selected_provider P) (buildAiPrompt t) \<noteq> Body text \<Longrightarrow>
           t' = t \<and> (\<exists>e. SuggestionFailed (title t) e \<in> set (console wa))"
  using assms(2) unfolding suggestion_step_keyed [OF assms(1)]
  by (auto split: http_outcome.splits)

lemma suggestion_loop_keyed:
  assumes key: "truthy (ANTHROPIC_API_KEY P) \<or> truthy (OPENAI_API_KEY P)"
  shows "length (fst (suggestion_loop P ts w)) = length ts
   \<and> requests (snd (suggestion_loop P ts w)) =
       requests w @ map (\<lambda>t. (selected_provider P, buildAiPrompt t)) ts
   \<and> (\<exists>extra. console (snd (suggestion_loop P ts w)) = console w @ extra)
   \<and> (\<forall>i<length ts.
        (\<forall>text. fetch P (length (requests w) + i) (selected_provider P) (buildAiPrompt (ts ! i)) = Body text \<longrightarrow>
           fst (suggestion_loop P ts w) ! i =
             (ts ! i) \<lparr> aiSuggestion := Some (or_else text ''No suggestion available'') \<rparr>)
      \<and> ((\<forall>text. fetch P (length (requests w) + i) (selected_provider P) (buildAiPrompt (ts ! i)) \<noteq> Body text) \<longrightarrow>
           fst (suggestion_loop P ts w) ! i = ts ! i
           \<and> (\<exists>e. SuggestionFailed (title (ts ! i)) e \<in> set (console (snd (suggestion_loop P ts w))))))"
proof (induction ts arbitrary: w)
  case Nil
  then show ?case by simp
next
  case (Cons t ts)
  obtain t' wa where s: "suggestion_step P t w = (t', wa)" by (cases "suggestion_step P t w")
  obtain ts' w2 where l: "suggestion_loop P ts wa = (ts', w2)" by (cases "suggestion_loop P ts wa")
  note st = suggestion_step_keyed_facts [OF key s]
  have whole: "suggestion_loop P (t # ts) w = (t' # ts', w2)"
    by (simp add: s l)
  from Cons.IH [of wa] l
  have len: "length ts' = length ts"
    and req: "requests w2 = requests wa @ map (\<lambda>t. (selected_provider P, buildAiPrompt t)) ts"
    and con: "\<exists>extra. console w2 = console wa @ extra"
    and idx: "\<forall>i<length ts.
        (\<forall>text. fetch P (length (requests wa) + i) (selected_provider P) (buildAiPrompt (ts ! i)) = Body text \<longrightarrow>
           ts' ! i = (ts ! i) \<lparr> aiSuggestion := Some (or_else text ''No suggestion available'') \<rparr>)
      \<and> ((\<forall>text. fetch P (length (requests wa) + i) (selected_provider P) (buildAiPrompt (ts ! i)) \<noteq> Body text) \<longrightarrow>
           ts' ! i = ts ! i \<and> (\<exists>e. SuggestionFailed (title (ts ! i)) e \<in> set (console w2)))"
    by simp_all
  have n1: "length (requests wa) = Suc (length (requests w))"
    using st(1) by simp
  from con st(2) have con2: "\<exists>extra. console w2 = console w @ extra"
    by auto
  from con have sub: "set (console wa) \<subseteq> set (console w2)"
    by auto
  have each: "(\<forall>text. fetch P (length (requests w) + i) (selected_provider P) (buildAiPrompt ((t # ts) ! i)) = Body text \<longrightarrow>
           (t' # ts') ! i = ((t # ts) ! i) \<lparr> aiSuggestion := Some (or_else text ''No suggestion available'') \<rparr>)
      \<and> ((\<forall>text. fetch P (length (requests w) + i) (selected_provider P) (buildAiPrompt ((t # ts) ! i)) \<noteq> Body text) \<longrightarrow>
           (t' # ts') ! i = (t # ts) ! i \<and> (\<exists>e. SuggestionFailed (title ((t # ts) ! i)) e \<in> set (console w2)))"
    if "i < length (t # ts)" for i
  proof (cases i)
    case 0
    then show ?thesis using st(3) st(4) sub by (simp, blast)
  next
    case (Suc j)
    with that have "j < length ts" by simp
    with idx n1 Suc show ?thesis by simp
  qed
  show ?case
    unfolding whole using len req st(1) con2 each by simp
qed


lemma same_but_suggestion:
  assumes "u \<lparr> aiSuggestion := None \<rparr> = r \<lparr> aiSuggestion := None \<rparr>"
  shows "status u = status r" "testId u = testId r" "durationMs u = durationMs r" "title u = title r"
proof -
  have "status (u \<lparr> aiSuggestion := None \<rparr>) = status (r \<lparr> aiSuggestion := None \<rparr>)"
       "testId (u \<lparr> aiSuggestion := None \<rparr>) = testId (r \<lparr> aiSuggestion := None \<rparr>)"
       "durationMs (u \<lparr> aiSuggestion := None \<rparr>) = durationMs (r \<lparr> aiSuggestion := None \<rparr>)"
       "title (u \<lparr> aiSuggestion := None \<rparr>) = title (r \<lparr> aiSuggestion := None \<rparr>)"
    by (simp_all only: assms)
  then show "status u = status r" "testId u = testId r" "durationMs u = durationMs r" "title u = title r"
    by simp_all
qed

lemma write_back_same:
  assumes "map (\<lambda>r. r \<lparr> aiSuggestion := None \<rparr>) us
             = map (\<lambda>r. r \<lparr> aiSuggestion := None \<rparr>) (filter isFailure rs)"
  shows "map (\<lambda>r. r \<lparr> aiSuggestion := None \<rparr>) (write_back rs us)
           = map (\<lambda>r. r \<lparr> aiSuggestion := None \<rparr>) rs
         \<and> filter isFailure (write_back rs us) = us"
  using assms
proof (induction rs arbitrary: us)
  case Nil
  then show ?case by simp
next
  case (Cons r rs)
  show ?case
  proof (cases "isFailure r")
    case False
    with Cons show ?thesis by simp
  next
    case True
    with Cons.prems obtain u us' where us: "us = u # us'"
      and u: "u \<lparr> aiSuggestion := None \<rparr> = r \<lparr> aiSuggestion := None \<rparr>"
      and rest: "map (\<lambda>r. r \<lparr> aiSuggestion := None \<rparr>) us'
             = map (\<lambda>r. r \<lparr> aiSuggestion := None \<rparr>) (filter isFailure rs)"
      by (cases us) auto
    from same_but_suggestion(1) [OF u] True have fu: "isFailure u"
      by (simp add: isFailure_def)
    from Cons.IH [OF rest] True us u fu show ?thesis by simp
  qed
qed

lemma step_same_but_suggestion:
  assumes "u \<lparr> aiSuggestion := None \<rparr> = r \<lparr> aiSuggestion := None \<rparr>"
  shows "updateHistory_step opts ts h u = updateHistory_step opts ts h r"
  unfolding updateHistory_step_def new_entry_def same_but_suggestion [OF assms]
  by (rule refl)

lemma foldl_step_same_but_suggestion:
  assumes "map (\<lambda>r. r \<lparr> aiSuggestion := None \<rparr>) us = map (\<lambda>r. r \<lparr> aiSuggestion := None \<rparr>) rs"
  shows "foldl (updateHistory_step opts ts) h us = foldl (updateHistory_step opts ts) h rs"
  using assms
proof (induction us arbitrary: rs h)
  case Nil
  then show ?case by simp
next
  case (Cons u us)
  then obtain r rs' where rs: "rs = r # rs'"
    and u: "u \<lparr> aiSuggestion := None \<rparr> = r \<lparr> aiSuggestion := None \<rparr>"
    and rest: "map (\<lambda>r. r \<lparr> aiSuggestion := None \<rparr>) us = map (\<lambda>r. r \<lparr> aiSuggestion := None \<rparr>) rs'"
    by (cases rs) auto
  from Cons.IH [OF rest] show ?case
    by (simp add: rs step_same_but_suggestion [OF u])
qed

lemma addAiSuggestions_frame:
  "history (fst (addAiSuggestions P this w)) = history this
   \<and> options (fst (addAiSuggestions P this w)) = options this
   \<and> outputDir (fst (addAiSuggestions P this w)) = outputDir this
   \<and> map (\<lambda>r. r \<lparr> aiSuggestion := None \<rparr>) (results (fst (addAiSuggestions P this w)))
       = map (\<lambda>r. r \<lparr> aiSuggestion := None \<rparr>) (results this)
   \<and> files (snd (addAiSuggestions P this w)) = files w
   \<and> writes (snd (addAiSuggestions P this w)) = writes w
   \<and> writable (snd (addAiSuggestions P this w)) = writable w"
proof -
  let ?w = "w \<lparr> console := console w @ [Analyzing (length (filter isFailure (results this)))] \<rparr>"
  obtain us wb where l: "suggestion_loop P (filter isFailure (results this)) ?w = (us, wb)"
    by (cases "suggestion_loop P (filter isFailure (results this)) ?w")
  from suggestion_loop_frame [of P "filter isFailure (results this)" ?w] l
  have f: "files wb = files w" "writes wb = writes w" "writable wb = writable w"
    "map (\<lambda>r. r \<lparr> aiSuggestion := None \<rparr>) us
       = map (\<lambda>r. r \<lparr> aiSuggestion := None \<rparr>) (filter isFailure (results this))"
    by simp_all
  from write_back_same [OF f(4)] f(1-3) show ?thesis
    by (simp add: addAiSuggestions_def Let_def l)
qed

lemma addAiSuggestions_keyed:
  assumes key: "truthy (ANTHROPIC_API_KEY P) \<or> truthy (OPENAI_API_KEY P)"
  shows "requests (snd (addAiSuggestions P this w)) =
           requests w @ map (\<lambda>t. (selected_provider P, buildAiPrompt t)) (filter isFailure (results this))
   \<and> (\<forall>i<length (filter isFailure (results this)).
        (\<forall>text. fetch P (length (requests w) + i) (selected_provider P)
                   (buildAiPrompt (filter isFailure (results this) ! i)) = Body text \<longrightarrow>
           filter isFailure (results (fst (addAiSuggestions P this w))) ! i =
             (filter isFailure (results this) ! i)
               \<lparr> aiSuggestion := Some (or_else text ''No suggestion available'') \<rparr>)
      \<and> ((\<forall>text. fetch P (length (requests w) + i) (selected_provider P)
                    (buildAiPrompt (filter isFailure (results this) ! i)) \<noteq> Body text) \<longrightarrow>
           filter isFailure (results (fst (addAiSuggestions P this w))) ! i
             = filter isFailure (results this) ! i
           \<and> (\<exists>e. SuggestionFailed (title (filter isFailure (results this) ! i)) e
                   \<in> set (console (snd (addAiSuggestions P this w))))))"
proof (cases "filter isFailure (results this) = []")
  case True
  then show ?thesis by (simp add: addAiSuggestions_def Let_def)
next
  case False
  let ?w = "w \<lparr> console := console w @ [Analyzing (length (filter isFailure (results this)))] \<rparr>"
  obtain us wb where l: "suggestion_loop P (filter isFailure (results this)) ?w = (us, wb)"
    by (cases "suggestion_loop P (filter isFailure (results this)) ?w")
  from suggestion_loop_frame [of P "filter isFailure (results this)" ?w] l
  have same: "map (\<lambda>r. r \<lparr> aiSuggestion := None \<rparr>) us
       = map (\<lambda>r. r \<lparr> aiSuggestion := None \<rparr>) (filter isFailure (results this))"
    by simp
  have a: "addAiSuggestions P this w = (this \<lparr> results := write_back (results this) us \<rparr>, wb)"
    using False key by (auto simp add: addAiSuggestions_def Let_def l)
  have fs: "filter isFailure (results (fst (addAiSuggestions P this w))) = us"
    using write_back_same [OF same] by (simp add: a)
  from suggestion_loop_keyed [OF key, of "filter isFailure (results this)" ?w] l
  show ?thesis
    unfolding fs by (simp add: a)
qed


subsection \<open>Run end\<close>

lemma onEnd_eq:
  "onEnd P this w =
    (let this1 = fst (addAiSuggestions P this w);
         wa = snd (addAiSuggestions P this w);
         outputPath = path_resolve P (outputDir this) (outputFile (options this));
         historyPath = path_resolve P (outputDir this) (historyFile (options this));
         H = foldl (updateHistory_step (options this) (toISOString_now P)) (history this) (results this)
     in if writable w outputPath \<and> writable w historyPath
        then Inr (this1 \<lparr> history := H \<rparr>,
                  wa \<lparr> files := (files w)(outputPath \<mapsto> Regular (generateHtml P (results this1)),
                                         historyPath \<mapsto> Regular (JSON_stringify P H)),
                       console := console wa @ [ReportPath outputPath],
                       writes := writes w @ [(outputPath, generateHtml P (results this1)),
                                             (historyPath, JSON_stringify P H)] \<rparr>)
        else Inl IOError)"
proof -
  note f = addAiSuggestions_frame [of P this w]
  have H: "foldl (updateHistory_step (options this) (toISOString_now P)) (history this)
             (results (fst (addAiSuggestions P this w)))
           = foldl (updateHistory_step (options this) (toISOString_now P)) (history this) (results this)"
    using f by (intro foldl_step_same_but_suggestion) simp
  show ?thesis
    using f
    by (simp add: onEnd_def split_beta Let_def writeFileSync_def updateHistory_def H)
qed


lemma onBegin_frame:
  assumes "onBegin P rootDir (constructor opts) w = Typed loaded"
  shows "results loaded = []"
    and "outputDir loaded = rootDir"
    and "options loaded = options (constructor opts)"
  using assms
  by (auto simp add: onBegin_def loadHistory_cases constructor_def
        split: option.splits fs_entry.splits)

lemma onEnd_Inr:
  assumes "onEnd P this w = Inr (this', w')"
  shows "history this' =
           foldl (updateHistory_step (options this) (toISOString_now P)) (history this) (results this)"
    and "writes w' = writes w @
           [(path_resolve P (outputDir this) (outputFile (options this)), generateHtml P (results this')),
            (path_resolve P (outputDir this) (historyFile (options this)), JSON_stringify P (history this'))]"
proof -
  define this1 where "this1 = fst (addAiSuggestions P this w)"
  define wa where "wa = snd (addAiSuggestions P this w)"
  define H where "H = foldl (updateHistory_step (options this) (toISOString_now P)) (history this) (results this)"
  define outputPath where "outputPath = path_resolve P (outputDir this) (outputFile (options this))"
  define historyPath where "historyPath = path_resolve P (outputDir this) (historyFile (options this))"
  have "onEnd P this w =
      (if writable w outputPath \<and> writable w historyPath
        then Inr (this1 \<lparr> history := H \<rparr>,
                  wa \<lparr> files := (files w)(outputPath \<mapsto> Regular (generateHtml P (results this1)),
                                         historyPath \<mapsto> Regular (JSON_stringify P H)),
                       console := console wa @ [ReportPath outputPath],
                       writes := writes w @ [(outputPath, generateHtml P (results this1)),
                                             (historyPath, JSON_stringify P H)] \<rparr>)
        else Inl IOError)"
    unfolding onEnd_eq Let_def this1_def wa_def H_def outputPath_def historyPath_def by (rule refl)
  with assms have t: "this' = this1 \<lparr> history := H \<rparr>"
    and w: "w' = wa \<lparr> files := (files w)(outputPath \<mapsto> Regular (generateHtml P (results this1)),
                                         historyPath \<mapsto> Regular (JSON_stringify P H)),
                       console := console wa @ [ReportPath outputPath],
                       writes := writes w @ [(outputPath, generateHtml P (results this1)),
                                             (historyPath, JSON_stringify P H)] \<rparr>"
    by (simp_all split: if_splits)
  show "history this' = H" by (simp add: t)
  show "writes w' = writes w @ [(outputPath, generateHtml P (results this')), (historyPath, JSON_stringify P (history this'))]"
    by (simp add: t w)
qed


lemma onEnd_writable:
  assumes "writable w (path_resolve P (outputDir this) (outputFile (options this)))"
    and "writable w (path_resolve P (outputDir this) (historyFile (options this)))"
  shows "onEnd P this w = Inr (fst (projr (onEnd P this w)), snd (projr (onEnd P this w)))"
  using assms by (simp add: onEnd_eq Let_def)

lemma run_Inr:
  assumes loaded: "onBegin P rootDir (constructor opts) w = Typed loaded"
    and run: "run P opts rootDir events w = Some (Inr (this', w'))"
  shows "history (collect P loaded events) = history loaded
          \<and> history this' =
              foldl (updateHistory_step (options loaded) (toISOString_now P)) (history loaded)
                (map (\<lambda>(test, result). last (results (onTestEnd P loaded test result))) events)
          \<and> writes w' = writes w @
              [(path_resolve P rootDir (outputFile (options loaded)), generateHtml P (results this')),
               (path_resolve P rootDir (historyFile (options loaded)), JSON_stringify P (history this'))]"
proof -
  note b = onBegin_frame [OF loaded]
  from collect_frame [of P loaded events] b
  have cf: "history (collect P loaded events) = history loaded"
    "options (collect P loaded events) = options loaded"
    "outputDir (collect P loaded events) = rootDir"
    "results (collect P loaded events) =
       map (\<lambda>(test, result). last (results (onTestEnd P loaded test result))) events"
    by simp_all
  from run have e: "onEnd P (collect P loaded events) w = Inr (this', w')"
    by (simp add: run_def loaded)
  from onEnd_Inr [OF e] show ?thesis
    by (simp only: cf simp_thms)
qed


text \<open>
  C8. Handling a test-completion event leaves the history as it is: after any sequence
  of events the history is the one the reporter held before, and every recorded result is
  the one computed from that history. In a run that has loaded a history mapping and ends
  without error, the history is changed once, at the end, by appending the entries of
  the recorded results to the loaded history, and the run writes two files, in this
  order: the report, and then the history, once.
\<close>

theorem history_untouched_until_run_end:
  "history (collect P this events) = history this
   \<and> results (collect P this events) =
       results this @ map (\<lambda>(test, result). last (results (onTestEnd P this test result))) events
   \<and> (\<forall>loaded this' w'.
        onBegin P rootDir (constructor opts) w = Typed loaded
        \<and> run P opts rootDir events w = Some (Inr (this', w')) \<longrightarrow>
        (let recorded = map (\<lambda>(test, result). last (results (onTestEnd P loaded test result))) events
         in history (collect P loaded events) = history loaded
          \<and> history this' =
              foldl (updateHistory_step (options loaded) (toISOString_now P)) (history loaded) recorded
          \<and> writes w' = writes w @
              [(path_resolve P rootDir (outputFile (options loaded)), generateHtml P (results this')),
               (path_resolve P rootDir (historyFile (options loaded)), JSON_stringify P (history this'))]))"
proof (intro conjI allI impI)
  show "history (collect P this events) = history this"
    using collect_frame [of P this events] by (rule conjunct1)
  show "results (collect P this events) =
       results this @ map (\<lambda>(test, result). last (results (onTestEnd P this test result))) events"
    using collect_frame [of P this events] by (elim conjE)
next
  fix loaded this' w'
  assume a: "onBegin P rootDir (constructor opts) w = Typed loaded
        \<and> run P opts rootDir events w = Some (Inr (this', w'))"
  from run_Inr [OF a [THEN conjunct1] a [THEN conjunct2]]
  show "let recorded = map (\<lambda>(test, result). last (results (onTestEnd P loaded test result))) events
         in history (collect P loaded events) = history loaded
          \<and> history this' =
              foldl (updateHistory_step (options loaded) (toISOString_now P)) (history loaded) recorded
          \<and> writes w' = writes w @
              [(path_resolve P rootDir (outputFile (options loaded)), generateHtml P (results this')),
               (path_resolve P rootDir (historyFile (options loaded)), JSON_stringify P (history this'))]"
    unfolding Let_def .
qed

text \<open>
  C9. Whatever the provider answers, request after request: with a credential present,
  one request is sent for every failing test, in order, also after requests that failed;
  a test whose request is answered gets its suggestion, a test whose request fails is
  left as it was and a line with its title is written to the console. Nothing but the
  suggestions changes in the results. When the report and the history file can be
  written, the run end completes: the report is written, and the history persisted is the
  loaded history extended by the results of the run, which does not depend on the
  provider.
\<close>

theorem enrichment_failures_are_isolated:
  "(truthy (ANTHROPIC_API_KEY P) \<or> truthy (OPENAI_API_KEY P) \<longrightarrow>
      (let failedTests = filter isFailure (results this);
           this1 = fst (addAiSuggestions P this w);
           wa = snd (addAiSuggestions P this w)
       in requests wa = requests w @ map (\<lambda>t. (selected_provider P, buildAiPrompt t)) failedTests
        \<and> (\<forall>i<length failedTests.
             (\<forall>text. fetch P (length (requests w) + i) (selected_provider P)
                        (buildAiPrompt (failedTests ! i)) = Body text \<longrightarrow>
                filter isFailure (results this1) ! i =
                  (failedTests ! i) \<lparr> aiSuggestion := Some (or_else text ''No suggestion available'') \<rparr>)
           \<and> ((\<forall>text. fetch P (length (requests w) + i) (selected_provider P)
                         (buildAiPrompt (failedTests ! i)) \<noteq> Body text) \<longrightarrow>
                filter isFailure (results this1) ! i = failedTests ! i
                \<and> (\<exists>e. SuggestionFailed (title (failedTests ! i)) e \<in> set (console wa))))))
   \<and> map (\<lambda>r. r \<lparr> aiSuggestion := None \<rparr>) (results (fst (addAiSuggestions P this w)))
       = map (\<lambda>r. r \<lparr> aiSuggestion := None \<rparr>) (results this)
   \<and> (let outputPath = path_resolve P (outputDir this) (outputFile (options this));
           historyPath = path_resolve P (outputDir this) (historyFile (options this));
           H = foldl (updateHistory_step (options this) (toISOString_now P)) (history this) (results this)
       in writable w outputPath \<and> writable w historyPath \<longrightarrow>
            (\<exists>this' w'. onEnd P this w = Inr (this', w')
               \<and> history this' = H
               \<and> writes w' = writes w @
                    [(outputPath, generateHtml P (results this')),
                     (historyPath, JSON_stringify P H)]))"
proof (intro conjI)
  show "truthy (ANTHROPIC_API_KEY P) \<or> truthy (OPENAI_API_KEY P) \<longrightarrow>
      (let failedTests = filter isFailure (results this);
           this1 = fst (addAiSuggestions P this w);
           wa = snd (addAiSuggestions P this w)
       in requests wa = requests w @ map (\<lambda>t. (selected_provider P, buildAiPrompt t)) failedTests
        \<and> (\<forall>i<length failedTests.
             (\<forall>text. fetch P (length (requests w) + i) (selected_provider P)
                        (buildAiPrompt (failedTests ! i)) = Body text \<longrightarrow>
                filter isFailure (results this1) ! i =
                  (failedTests ! i) \<lparr> aiSuggestion := Some (or_else text ''No suggestion available'') \<rparr>)
           \<and> ((\<forall>text. fetch P (length (requests w) + i) (selected_provider P)
                         (buildAiPrompt (failedTests ! i)) \<noteq> Body text) \<longrightarrow>
                filter isFailure (results this1) ! i = failedTests ! i
                \<and> (\<exists>e. SuggestionFailed (title (failedTests ! i)) e \<in> set (console wa)))))"
    unfolding Let_def by (rule impI) (rule addAiSuggestions_keyed)
  show "map (\<lambda>r. r \<lparr> aiSuggestion := None \<rparr>) (results (fst (addAiSuggestions P this w)))
       = map (\<lambda>r. r \<lparr> aiSuggestion := None \<rparr>) (results this)"
    using addAiSuggestions_frame [of P this w] by (elim conjE)
  show "let outputPath = path_resolve P (outputDir this) (outputFile (options this));
           historyPath = path_resolve P (outputDir this) (historyFile (options this));
           H = foldl (updateHistory_step (options this) (toISOString_now P)) (history this) (results this)
       in writable w outputPath \<and> writable w historyPath \<longrightarrow>
            (\<exists>this' w'. onEnd P this w = Inr (this', w')
               \<and> history this' = H
               \<and> writes w' = writes w @
                    [(outputPath, generateHtml P (results this')),
                     (historyPath, JSON_stringify P H)])"
    unfolding Let_def
  proof (intro impI)
    assume wr: "writable w (path_resolve P (outputDir this) (outputFile (options this)))
              \<and> writable w (path_resolve P (outputDir this) (historyFile (options this)))"
    note e = onEnd_writable [OF wr [THEN conjunct1] wr [THEN conjunct2]]
    note r = onEnd_Inr [OF e]
    show "\<exists>this' w'. onEnd P this w = Inr (this', w')
        \<and> history this' = foldl (updateHistory_step (options this) (toISOString_now P)) (history this) (results this)
        \<and> writes w' = writes w @
             [(path_resolve P (outputDir this) (outputFile (options this)), generateHtml P (results this')),
              (path_resolve P (outputDir this) (historyFile (options this)),
               JSON_stringify P (foldl (updateHistory_step (options this) (toISOString_now P)) (history this) (results this)))]"
      using e r by (intro exI conjI) simp_all
  qed
qed


lemma run_writable:
  assumes "\<And>p. writable w p" and "onBegin P rootDir (constructor opts) w = Typed loaded"
  shows "run P opts rootDir events w =
           Some (Inr (fst (projr (the (run P opts rootDir events w))),
                      snd (projr (the (run P opts rootDir events w)))))"
proof -
  have "onEnd P (collect P loaded events) w =
          Inr (fst (projr (onEnd P (collect P loaded events) w)),
               snd (projr (onEnd P (collect P loaded events) w)))"
    by (rule onEnd_writable) (rule assms(1))+
  then show ?thesis by (simp add: run_def assms(2))
qed

lemma P0_fixed:
  "generateHtml P0 rs = ''<!DOCTYPE html>''"
  "JSON_stringify P0 h = ''{}''"
  "path_resolve P0 dir f = dir @ ''/'' @ f"
  "toISOString_now P0 = ''2024-01-01T00:00:00.000Z''"
  by (simp_all add: P0_def)

lemma default_files:
  "outputFile (options (constructor no_options)) = ''smart-report.html''"
  "historyFile (options (constructor no_options)) = ''test-history.json''"
  by (simp_all add: constructor_def no_options_def or_default_def)

lemma begin0:
  "onBegin P0 ''/r'' (constructor no_options) w0 = Typed ((constructor no_options) \<lparr> outputDir := ''/r'' \<rparr>)"
  by (simp add: onBegin_def loadHistory_cases w0_def)

theorem history_untouched_until_run_end_witness:
  "history (collect P0 (reporter0 two_recent) [(test0, result0 Passed 500), (test0, result0 Failed 7)])
     = history (reporter0 two_recent)
   \<and> lookup_entries (history (fst (projr (the (run P0 no_options ''/r'' [(test0, result0 Passed 500)] w0)))))
        ''a.spec.ts::logs in''
       = [\<lparr> passed = True, duration = Fin 500, timestamp = ''2024-01-01T00:00:00.000Z'' \<rparr>]
   \<and> writes (snd (projr (the (run P0 no_options ''/r'' [(test0, result0 Passed 500)] w0))))
       = [(''/r/smart-report.html'', ''<!DOCTYPE html>''), (''/r/test-history.json'', ''{}'')]"
proof -
  have wr: "writable w0 p" for p by (simp add: w0_def)
  note ok = run_writable [of w0 P0 "''/r''" no_options _ "[(test0, result0 Passed 500)]", OF wr begin0]
  note T = history_untouched_until_run_end
  note R = T [where P = P0 and opts = no_options and rootDir = "''/r''" and w = w0
               and events = "[(test0, result0 Passed 500)]",
             THEN conjunct2, THEN conjunct2, rule_format, OF conjI [OF begin0 ok], unfolded Let_def]
  have ev: "lookup_entries
       (foldl (updateHistory_step (options ((constructor no_options) \<lparr> outputDir := ''/r'' \<rparr>)) (toISOString_now P0))
          (history ((constructor no_options) \<lparr> outputDir := ''/r'' \<rparr>))
          (map (\<lambda>(test, result). last (results (onTestEnd P0 ((constructor no_options) \<lparr> outputDir := ''/r'' \<rparr>) test result)))
             [(test0, result0 Passed 500)]))
       ''a.spec.ts::logs in''
     = [\<lparr> passed = True, duration = Fin 500, timestamp = ''2024-01-01T00:00:00.000Z'' \<rparr>]"
    by code_simp
  have 1: "history (collect P0 (reporter0 two_recent) [(test0, result0 Passed 500), (test0, result0 Failed 7)])
     = history (reporter0 two_recent)"
    by (rule T [THEN conjunct1])
  have 2: "lookup_entries (history (fst (projr (the (run P0 no_options ''/r'' [(test0, result0 Passed 500)] w0)))))
        ''a.spec.ts::logs in''
       = [\<lparr> passed = True, duration = Fin 500, timestamp = ''2024-01-01T00:00:00.000Z'' \<rparr>]"
    by (simp only: R [THEN conjunct2, THEN conjunct1] ev)
  have 3: "writes (snd (projr (the (run P0 no_options ''/r'' [(test0, result0 Passed 500)] w0))))
       = [(''/r/smart-report.html'', ''<!DOCTYPE html>''), (''/r/test-history.json'', ''{}'')]"
    using R [THEN conjunct2, THEN conjunct2]
    by (simp add: P0_fixed default_files w0_def)
  from 1 2 3 show ?thesis by (intro conjI)
qed


lemma P2_fixed:
  "generateHtml P2 rs = ''<!DOCTYPE html>''"
  "JSON_stringify P2 h = ''{}''"
  "path_resolve P2 dir f = dir @ ''/'' @ f"
  "selected_provider P2 = Anthropic"
  "truthy (ANTHROPIC_API_KEY P2) \<or> truthy (OPENAI_API_KEY P2)"
  "fetch P2 0 prov prompt = Rejected"
  "fetch P2 (Suc 0) prov prompt = Body (Some ''Await the locator.'')"
  by (simp_all add: P2_def P0_def selected_provider_def truthy_def)

lemma ended2_fixed:
  "filter isFailure (results ended2) = [failing ''first'' Failed, failing ''second'' TimedOut]"
  "outputDir ended2 = ''/r''"
  "outputFile (options ended2) = ''smart-report.html''"
  "historyFile (options ended2) = ''test-history.json''"
  by (simp_all add: ended2_def ran2_def reporter2_def failing_def data0_def isFailure_def
        constructor_def max2_options_def no_options_def or_default_def)

theorem enrichment_failures_are_isolated_witness:
  "requests (snd (addAiSuggestions P2 ended2 w0))
     = [(Anthropic, buildAiPrompt (failing ''first'' Failed)),
        (Anthropic, buildAiPrompt (failing ''second'' TimedOut))]
   \<and> (\<exists>e. SuggestionFailed ''first'' e \<in> set (console (snd (addAiSuggestions P2 ended2 w0))))
   \<and> filter isFailure (results (fst (addAiSuggestions P2 ended2 w0))) ! 1
       = (failing ''second'' TimedOut) \<lparr> aiSuggestion := Some ''Await the locator.'' \<rparr>
   \<and> \<not> isl (onEnd P2 ended2 w0)
   \<and> writes (snd (projr (onEnd P2 ended2 w0)))
       = [(''/r/smart-report.html'', ''<!DOCTYPE html>''), (''/r/test-history.json'', ''{}'')]"
proof -
  note T = enrichment_failures_are_isolated [where P = P2 and this = ended2 and w = w0]
  note A = T [THEN conjunct1, THEN mp, OF P2_fixed(5), unfolded Let_def ended2_fixed P2_fixed]
  have r0: "requests w0 = []" by (simp add: w0_def)
  have t1: "title (failing ''first'' Failed) = ''first''" by (simp add: failing_def)
  have 1: "requests (snd (addAiSuggestions P2 ended2 w0))
     = [(Anthropic, buildAiPrompt (failing ''first'' Failed)),
        (Anthropic, buildAiPrompt (failing ''second'' TimedOut))]"
    using A [THEN conjunct1] by (simp add: r0)
  have i0: "(0::nat) < length [failing ''first'' Failed, failing ''second'' TimedOut]"
    and i1: "(1::nat) < length [failing ''first'' Failed, failing ''second'' TimedOut]"
    by simp_all
  have 2: "\<exists>e. SuggestionFailed ''first'' e \<in> set (console (snd (addAiSuggestions P2 ended2 w0)))"
    using A [THEN conjunct2, rule_format, OF i0, THEN conjunct2]
    by (simp add: r0 P2_fixed t1)
  have 3: "filter isFailure (results (fst (addAiSuggestions P2 ended2 w0))) ! 1
       = (failing ''second'' TimedOut) \<lparr> aiSuggestion := Some ''Await the locator.'' \<rparr>"
    using A [THEN conjunct2, rule_format, OF i1, THEN conjunct1]
    by (simp add: r0 P2_fixed or_else_def)
  have wr: "writable w0 (''/r'' @ ''/'' @ ''smart-report.html'') \<and> writable w0 (''/r'' @ ''/'' @ ''test-history.json'')"
    by (simp add: w0_def)
  from T [THEN conjunct2, THEN conjunct2, unfolded Let_def ended2_fixed P2_fixed, THEN mp, OF wr]
  obtain this' w' where e: "onEnd P2 ended2 w0 = Inr (this', w')"
    and w: "writes w' = writes w0 @ [(''/r'' @ ''/'' @ ''smart-report.html'', ''<!DOCTYPE html>''),
                                     (''/r'' @ ''/'' @ ''test-history.json'', ''{}'')]"
    by blast
  have 4: "\<not> isl (onEnd P2 ended2 w0)" by (simp add: e)
  have 5: "writes (snd (projr (onEnd P2 ended2 w0)))
       = [(''/r/smart-report.html'', ''<!DOCTYPE html>''), (''/r/test-history.json'', ''{}'')]"
    by (simp add: e w) (simp add: w0_def)
  from 1 2 3 4 5 show ?thesis by (intro conjI)
qed

end
